theory Spec2Isabelle
  imports Complex_Main
begin

section \<open>Documents and collections\<close>

text \<open>
  The server keeps its data in MongoDB collections declared in
  \<^verbatim>\<open>server/database/init.js\<close>. A collection is modelled as the list of its documents
  in insertion order, a document as a record, an ObjectId as a natural number. Fresh
  identifiers come from a counter of the store. Timestamps and the password hash are
  read by none of the handlers modelled here and are left out.
\<close>

type_synonym oid = nat

text \<open>
  Identifiers on the wire. A request names an identifier by a string of 24 hexadecimal
  digits (\<^verbatim>\<open>isMongoId\<close>); Mongoose casts such a string to the ObjectId it denotes,
  whatever the case of its letters (\<open>ObjectId\<close>), and an ObjectId prints in lower case
  (\<open>toString\<close>). The token of a caller carries the printed form of the caller's
  \<^verbatim>\<open>_id\<close>. JavaScript's \<^verbatim>\<open>===\<close> on two such strings is equality of strings, so two
  spellings of one ObjectId are different values for it. Where a handler only casts an
  identifier, the model passes the ObjectId; where it compares the string, the model
  passes the string.
\<close>

definition hex_digit_value :: "char \<Rightarrow> nat option" where
  "hex_digit_value c =
     map_of [(CHR ''0'', 0), (CHR ''1'', 1), (CHR ''2'', 2), (CHR ''3'', 3), (CHR ''4'', 4),
             (CHR ''5'', 5), (CHR ''6'', 6), (CHR ''7'', 7), (CHR ''8'', 8), (CHR ''9'', 9),
             (CHR ''a'', 10), (CHR ''b'', 11), (CHR ''c'', 12), (CHR ''d'', 13),
             (CHR ''e'', 14), (CHR ''f'', 15),
             (CHR ''A'', 10), (CHR ''B'', 11), (CHR ''C'', 12), (CHR ''D'', 13),
             (CHR ''E'', 14), (CHR ''F'', 15)] c"

definition isMongoId :: "string \<Rightarrow> bool" where
  "isMongoId t = (length t = 24 \<and> list_all (\<lambda>c. hex_digit_value c \<noteq> None) t)"

definition ObjectId :: "string \<Rightarrow> oid" where
  "ObjectId t =
     foldl (\<lambda>n c. 16 * n + (case hex_digit_value c of None \<Rightarrow> 0 | Some d \<Rightarrow> d)) 0 t"

fun hex_text :: "nat \<Rightarrow> nat \<Rightarrow> string" where
  "hex_text 0 n = []"
| "hex_text (Suc k) n = hex_text k (n div 16) @ [''0123456789abcdef'' ! (n mod 16)]"

definition toString :: "oid \<Rightarrow> string" where
  "toString i = hex_text 24 i"

text \<open>
  The strings the route handlers write to or compare with the \<^verbatim>\<open>status\<close> path of a
  swap request. The schema's \<^verbatim>\<open>enum\<close> admits the first three only.
\<close>

datatype status = Pending | Accepted | Rejected | Cancelled

datatype proficiency = Beginner | Intermediate | Advanced

datatype priority = Low | Medium | High

record user =
  u_id :: oid
  u_email :: string
  u_name :: string
  u_location :: "string option"
  u_availability :: "string option"
  u_profile_photo :: "string option"
  is_public :: bool
  is_admin :: bool
  is_banned :: bool

record skill =
  sk_id :: oid
  sk_name :: string
  sk_category :: "string option"
  sk_description :: "string option"

record offered =
  o_id :: oid
  o_user_id :: oid
  o_skill_id :: oid
  o_description :: string
  proficiency_level :: proficiency

record wanted =
  w_id :: oid
  w_user_id :: oid
  w_skill_id :: oid
  w_description :: string
  priority_level :: priority

record swap =
  sw_id :: oid
  requester_id :: oid
  recipient_id :: oid
  offered_skill_id :: oid
  requested_skill_id :: oid
  status :: status
  message :: "string option"

record rating =
  r_id :: oid
  swap_id :: oid
  rater_id :: oid
  rated_user_id :: oid
  rating :: int
  feedback :: "string option"

record db =
  User :: "user list"
  Skill :: "skill list"
  UserSkillOffered :: "offered list"
  UserSkillWanted :: "wanted list"
  SwapRequest :: "swap list"
  Rating :: "rating list"
  next_id :: oid

text \<open>
  The responses the handlers send when they do not succeed, one constructor for each
  kind of failure; \<open>http_status\<close> is the status code the handler sets.
\<close>

datatype error =
    ValidationError
  | SelfSwap
  | RecipientNotFound
  | RecipientBanned
  | OfferedSkillNotOwned
  | RequestedSkillNotOffered
  | DuplicatePendingRequest
  | SwapNotFound
  | Forbidden
  | InvalidTransition
  | InvalidState
  | DuplicateRating
  | SkillNotFound
  | DuplicateAssociation
  | AssociationNotFound
  | SelfBanForbidden
  | UserNotFound
  | BannedActor
  | AdminRequired
  | ServerError
  | DatabaseError

fun http_status :: "error \<Rightarrow> nat" where
  "http_status ValidationError = 400"
| "http_status SelfSwap = 400"
| "http_status RecipientNotFound = 404"
| "http_status RecipientBanned = 403"
| "http_status OfferedSkillNotOwned = 400"
| "http_status RequestedSkillNotOffered = 400"
| "http_status DuplicatePendingRequest = 400"
| "http_status SwapNotFound = 404"
| "http_status Forbidden = 403"
| "http_status InvalidTransition = 400"
| "http_status InvalidState = 400"
| "http_status DuplicateRating = 400"
| "http_status SkillNotFound = 404"
| "http_status DuplicateAssociation = 400"
| "http_status AssociationNotFound = 404"
| "http_status SelfBanForbidden = 400"
| "http_status UserNotFound = 404"
| "http_status BannedActor = 403"
| "http_status AdminRequired = 403"
| "http_status ServerError = 500"
| "http_status DatabaseError = 500"

section \<open>Store primitives\<close>

text \<open>
  \<^verbatim>\<open>findOne\<close> and \<^verbatim>\<open>findById\<close> are \<^const>\<open>find\<close> on the list. An update or a
  deletion of one document (\<^verbatim>\<open>save\<close> of a loaded document,
  \<^verbatim>\<open>findByIdAndUpdate\<close>, \<^verbatim>\<open>findOneAndDelete\<close>, \<^verbatim>\<open>findByIdAndDelete\<close>) acts on the
  first document that matches.
\<close>

fun replace_first :: "('a \<Rightarrow> bool) \<Rightarrow> 'a \<Rightarrow> 'a list \<Rightarrow> 'a list" where
  "replace_first P y [] = []"
| "replace_first P y (x # xs) = (if P x then y # xs else x # replace_first P y xs)"

fun delete_first :: "('a \<Rightarrow> bool) \<Rightarrow> 'a list \<Rightarrow> 'a list" where
  "delete_first P [] = []"
| "delete_first P (x # xs) = (if P x then xs else x # delete_first P xs)"

definition User_findById :: "db \<Rightarrow> oid \<Rightarrow> user option" where
  "User_findById s i = find (\<lambda>u. u_id u = i) (User s)"

definition Skill_findById :: "db \<Rightarrow> oid \<Rightarrow> skill option" where
  "Skill_findById s i = find (\<lambda>k. sk_id k = i) (Skill s)"

definition SwapRequest_findById :: "db \<Rightarrow> oid \<Rightarrow> swap option" where
  "SwapRequest_findById s i = find (\<lambda>w. sw_id w = i) (SwapRequest s)"

definition UserSkillOffered_findOne :: "db \<Rightarrow> oid \<Rightarrow> oid \<Rightarrow> offered option" where
  "UserSkillOffered_findOne s userId skillId =
     find (\<lambda>a. o_user_id a = userId \<and> o_skill_id a = skillId) (UserSkillOffered s)"

definition UserSkillWanted_findOne :: "db \<Rightarrow> oid \<Rightarrow> oid \<Rightarrow> wanted option" where
  "UserSkillWanted_findOne s userId skillId =
     find (\<lambda>a. w_user_id a = userId \<and> w_skill_id a = skillId) (UserSkillWanted s)"

definition Rating_findOne :: "db \<Rightarrow> oid \<Rightarrow> oid \<Rightarrow> rating option" where
  "Rating_findOne s swapId userId =
     find (\<lambda>r. swap_id r = swapId \<and> rater_id r = userId) (Rating s)"

text \<open>
  Schema validation. Mongoose validates a document against its schema before it writes
  it (\<^verbatim>\<open>save\<close>, \<^verbatim>\<open>create\<close>) and throws when a path holds a value outside its
  \<^verbatim>\<open>enum\<close> or its \<^verbatim>\<open>min\<close>/\<^verbatim>\<open>max\<close>; nothing is written then. The swap schema
  (\<^verbatim>\<open>init.js\<close>, lines 149 to 153, and the stand-alone model file alike) lists
  \<^verbatim>\<open>['pending', 'accepted', 'rejected']\<close>.
\<close>

definition swap_status_enum :: "status list" where
  "swap_status_enum = [Pending, Accepted, Rejected]"

definition swap_valid :: "swap \<Rightarrow> bool" where
  "swap_valid w = (status w \<in> set swap_status_enum)"

definition rating_valid :: "rating \<Rightarrow> bool" where
  "rating_valid r = (1 \<le> rating r \<and> rating r \<le> 5)"

definition SwapRequest_save :: "db \<Rightarrow> swap \<Rightarrow> db option" where
  "SwapRequest_save s w =
     (if swap_valid w
      then Some (s\<lparr>SwapRequest := replace_first (\<lambda>x. sw_id x = sw_id w) w (SwapRequest s)\<rparr>)
      else None)"

definition SwapRequest_create ::
    "db \<Rightarrow> oid \<Rightarrow> oid \<Rightarrow> oid \<Rightarrow> oid \<Rightarrow> string option \<Rightarrow> (swap \<times> db) option" where
  "SwapRequest_create s requesterId recipientId offeredSkillId requestedSkillId msg =
     (let w = \<lparr>sw_id = next_id s, requester_id = requesterId, recipient_id = recipientId,
                offered_skill_id = offeredSkillId, requested_skill_id = requestedSkillId,
                status = Pending, message = msg\<rparr>
      in if swap_valid w
         then Some (w, s\<lparr>SwapRequest := SwapRequest s @ [w], next_id := Suc (next_id s)\<rparr>)
         else None)"

definition SwapRequest_findByIdAndDelete :: "db \<Rightarrow> oid \<Rightarrow> db" where
  "SwapRequest_findByIdAndDelete s i =
     s\<lparr>SwapRequest := delete_first (\<lambda>w. sw_id w = i) (SwapRequest s)\<rparr>"

definition Rating_create :: "db \<Rightarrow> oid \<Rightarrow> oid \<Rightarrow> oid \<Rightarrow> int \<Rightarrow> string option \<Rightarrow> db option" where
  "Rating_create s swapId userId ratedUserId score fb =
     (let r = \<lparr>r_id = next_id s, swap_id = swapId, rater_id = userId,
                rated_user_id = ratedUserId, rating = score, feedback = fb\<rparr>
      in if rating_valid r
         then Some (s\<lparr>Rating := Rating s @ [r], next_id := Suc (next_id s)\<rparr>)
         else None)"

section \<open>Middleware\<close>

text \<open>
  \<^verbatim>\<open>checkNotBanned\<close> (middleware/auth.js) runs before every swap route and reads the
  caller's document again. \<^verbatim>\<open>authenticateToken\<close> verifies the bearer token and yields
  the caller's identity; the caller passed to a handler below is that identity.
\<close>

definition checkNotBanned :: "db \<Rightarrow> oid \<Rightarrow> error option" where
  "checkNotBanned s userId =
     (case User_findById s userId of
        None \<Rightarrow> Some UserNotFound
      | Some u \<Rightarrow> if is_banned u then Some BannedActor else None)"

definition guarded :: "db \<Rightarrow> oid \<Rightarrow> (error + 'a) \<times> db \<Rightarrow> (error + 'a) \<times> db" where
  "guarded s userId k = (case checkNotBanned s userId of Some e \<Rightarrow> (Inl e, s) | None \<Rightarrow> k)"

section \<open>Swap routes (server/Routes/swaps.js)\<close>

text \<open>
  \<^verbatim>\<open>POST /swaps\<close>, lines 37 to 114. The recipient's identifier is the string of the
  request body: the validator tests it with \<^verbatim>\<open>isMongoId\<close>, line 52 compares it with
  the token's identifier by \<^verbatim>\<open>===\<close>, and every query casts it. The two skill
  identifiers are only cast, so they are passed as ObjectIds; the optional message is
  stored as it arrives (the validator's \<^verbatim>\<open>trim\<close> is left out). The checks are the
  handler's, in its order.
\<close>

definition create_swap ::
    "db \<Rightarrow> oid \<Rightarrow> string \<Rightarrow> oid \<Rightarrow> oid \<Rightarrow> string option \<Rightarrow> (error + oid) \<times> db" where
  "create_swap s requesterId recipientId offeredSkillId requestedSkillId msg =
     (if \<not> isMongoId recipientId then (Inl ValidationError, s)
      else if toString requesterId = recipientId then (Inl SelfSwap, s)
      else case User_findById s (ObjectId recipientId) of
        None \<Rightarrow> (Inl RecipientNotFound, s)
      | Some recipient \<Rightarrow>
          if is_banned recipient then (Inl RecipientBanned, s)
          else if UserSkillOffered_findOne s requesterId offeredSkillId = None
            then (Inl OfferedSkillNotOwned, s)
          else if UserSkillOffered_findOne s (ObjectId recipientId) requestedSkillId = None
            then (Inl RequestedSkillNotOffered, s)
          else if find (\<lambda>w. requester_id w = requesterId
                            \<and> recipient_id w = ObjectId recipientId
                            \<and> status w = Pending) (SwapRequest s) \<noteq> None
            then (Inl DuplicatePendingRequest, s)
          else case SwapRequest_create s requesterId (ObjectId recipientId) offeredSkillId
                      requestedSkillId msg of
                 None \<Rightarrow> (Inl ServerError, s)
               | Some (w, s') \<Rightarrow> (Inr (sw_id w), s'))"

text \<open>\<^verbatim>\<open>PUT /swaps/:swapId/accept\<close>, lines 201 to 227.\<close>

definition accept_swap :: "db \<Rightarrow> oid \<Rightarrow> oid \<Rightarrow> (error + unit) \<times> db" where
  "accept_swap s userId swapId =
     (case SwapRequest_findById s swapId of
        None \<Rightarrow> (Inl SwapNotFound, s)
      | Some w \<Rightarrow>
          if recipient_id w \<noteq> userId then (Inl Forbidden, s)
          else if status w \<noteq> Pending then (Inl InvalidTransition, s)
          else case SwapRequest_save s (w\<lparr>status := Accepted\<rparr>) of
                 None \<Rightarrow> (Inl ServerError, s)
               | Some s' \<Rightarrow> (Inr (), s'))"

text \<open>\<^verbatim>\<open>PUT /swaps/:swapId/reject\<close>, lines 244 to 270.\<close>

definition reject_swap :: "db \<Rightarrow> oid \<Rightarrow> oid \<Rightarrow> (error + unit) \<times> db" where
  "reject_swap s userId swapId =
     (case SwapRequest_findById s swapId of
        None \<Rightarrow> (Inl SwapNotFound, s)
      | Some w \<Rightarrow>
          if recipient_id w \<noteq> userId then (Inl Forbidden, s)
          else if status w \<noteq> Pending then (Inl InvalidTransition, s)
          else case SwapRequest_save s (w\<lparr>status := Rejected\<rparr>) of
                 None \<Rightarrow> (Inl ServerError, s)
               | Some s' \<Rightarrow> (Inr (), s'))"

text \<open>
  \<^verbatim>\<open>PUT /swaps/:swapId/cancel\<close>, lines 290 to 316: the handler assigns
  \<^verbatim>\<open>'cancelled'\<close> to the loaded document and saves it; an exception of
  \<^verbatim>\<open>save\<close> reaches the handler's \<^verbatim>\<open>catch\<close>, which answers 500.
\<close>

definition cancel_swap :: "db \<Rightarrow> oid \<Rightarrow> oid \<Rightarrow> (error + unit) \<times> db" where
  "cancel_swap s userId swapId =
     (case SwapRequest_findById s swapId of
        None \<Rightarrow> (Inl SwapNotFound, s)
      | Some w \<Rightarrow>
          if requester_id w \<noteq> userId then (Inl Forbidden, s)
          else if status w \<noteq> Pending then (Inl InvalidTransition, s)
          else case SwapRequest_save s (w\<lparr>status := Cancelled\<rparr>) of
                 None \<Rightarrow> (Inl ServerError, s)
               | Some s' \<Rightarrow> (Inr (), s'))"

text \<open>
  \<^verbatim>\<open>DELETE /swaps/:swapId\<close>, lines 595 to 620: the second swap router of the
  repository cancels by deleting the document.
\<close>

definition delete_swap :: "db \<Rightarrow> oid \<Rightarrow> oid \<Rightarrow> (error + unit) \<times> db" where
  "delete_swap s userId swapId =
     (case SwapRequest_findById s swapId of
        None \<Rightarrow> (Inl SwapNotFound, s)
      | Some w \<Rightarrow>
          if requester_id w \<noteq> userId then (Inl Forbidden, s)
          else if status w \<noteq> Pending then (Inl InvalidTransition, s)
          else (Inr (), SwapRequest_findByIdAndDelete s swapId))"

text \<open>
  \<^verbatim>\<open>POST /swaps/:swapId/rate\<close>. The two swap routers carry the same handler text
  (lines 319 to 376 and 623 to 680) in different module scopes: the first module
  imports \<^verbatim>\<open>{ SwapRequest, User, UserSkillOffered }\<close> only (line 14), so the handler's
  first use of the identifier \<^verbatim>\<open>Rating\<close> throws a ReferenceError, which its
  \<^verbatim>\<open>catch\<close> answers with 500; the second module requires the Rating model (line 385).
  \<open>rating_bound\<close> says whether the module binds the identifier. The score has type
  \<open>int\<close>; the \<^verbatim>\<open>isInt({ min: 1, max: 5 })\<close> validator runs before the handler body.
\<close>

definition rate_swap_in ::
    "bool \<Rightarrow> db \<Rightarrow> oid \<Rightarrow> oid \<Rightarrow> int \<Rightarrow> string option \<Rightarrow> (error + unit) \<times> db" where
  "rate_swap_in rating_bound s userId swapId score fb =
     (if \<not> (1 \<le> score \<and> score \<le> 5) then (Inl ValidationError, s)
      else case SwapRequest_findById s swapId of
        None \<Rightarrow> (Inl SwapNotFound, s)
      | Some w \<Rightarrow>
          if status w \<noteq> Accepted then (Inl InvalidState, s)
          else if requester_id w \<noteq> userId \<and> recipient_id w \<noteq> userId then (Inl Forbidden, s)
          else let ratedUserId = (if requester_id w = userId then recipient_id w
                                  else requester_id w)
            in if \<not> rating_bound then (Inl ServerError, s)
               else if Rating_findOne s swapId userId \<noteq> None then (Inl DuplicateRating, s)
               else case Rating_create s swapId userId ratedUserId score fb of
                      None \<Rightarrow> (Inl ServerError, s)
                    | Some s' \<Rightarrow> (Inr (), s'))"

definition rate_swap :: "db \<Rightarrow> oid \<Rightarrow> oid \<Rightarrow> int \<Rightarrow> string option \<Rightarrow> (error + unit) \<times> db" where
  "rate_swap = rate_swap_in False"

definition rate_swap_models ::
    "db \<Rightarrow> oid \<Rightarrow> oid \<Rightarrow> int \<Rightarrow> string option \<Rightarrow> (error + unit) \<times> db" where
  "rate_swap_models = rate_swap_in True"

section \<open>Skill associations (user routes)\<close>

text \<open>
  \<^verbatim>\<open>POST /users/me/skills/offered\<close> (admin.js, lines 703 to 737) and its twin for wanted
  skills. The proficiency and priority levels of the request are values of the schema's
  \<^verbatim>\<open>enum\<close>; an absent level takes the handler's default. These routes run behind
  \<^verbatim>\<open>authenticateToken\<close> only.
\<close>

definition add_offered ::
    "db \<Rightarrow> oid \<Rightarrow> oid \<Rightarrow> string option \<Rightarrow> proficiency option \<Rightarrow> (error + unit) \<times> db" where
  "add_offered s userId skillId description proficiencyLevel =
     (case Skill_findById s skillId of
        None \<Rightarrow> (Inl SkillNotFound, s)
      | Some k \<Rightarrow>
          if UserSkillOffered_findOne s userId skillId \<noteq> None
          then (Inl DuplicateAssociation, s)
          else (Inr (),
                s\<lparr>UserSkillOffered := UserSkillOffered s @
                     [\<lparr>o_id = next_id s, o_user_id = userId, o_skill_id = skillId,
                       o_description = (case description of None \<Rightarrow> [] | Some d \<Rightarrow> d),
                       proficiency_level =
                         (case proficiencyLevel of None \<Rightarrow> Intermediate | Some l \<Rightarrow> l)\<rparr>],
                   next_id := Suc (next_id s)\<rparr>))"

definition add_wanted ::
    "db \<Rightarrow> oid \<Rightarrow> oid \<Rightarrow> string option \<Rightarrow> priority option \<Rightarrow> (error + unit) \<times> db" where
  "add_wanted s userId skillId description priorityLevel =
     (case Skill_findById s skillId of
        None \<Rightarrow> (Inl SkillNotFound, s)
      | Some k \<Rightarrow>
          if UserSkillWanted_findOne s userId skillId \<noteq> None
          then (Inl DuplicateAssociation, s)
          else (Inr (),
                s\<lparr>UserSkillWanted := UserSkillWanted s @
                     [\<lparr>w_id = next_id s, w_user_id = userId, w_skill_id = skillId,
                       w_description = (case description of None \<Rightarrow> [] | Some d \<Rightarrow> d),
                       priority_level =
                         (case priorityLevel of None \<Rightarrow> Medium | Some l \<Rightarrow> l)\<rparr>],
                   next_id := Suc (next_id s)\<rparr>))"

text \<open>
  \<^verbatim>\<open>DELETE /users/me/skills/offered/:skillId\<close> (lines 777 to 795): the path parameter is
  matched against the \<^verbatim>\<open>_id\<close> of the association document, together with the owner.
\<close>

definition remove_offered :: "db \<Rightarrow> oid \<Rightarrow> oid \<Rightarrow> (error + unit) \<times> db" where
  "remove_offered s userId skillId =
     (case find (\<lambda>a. o_id a = skillId \<and> o_user_id a = userId) (UserSkillOffered s) of
        None \<Rightarrow> (Inl AssociationNotFound, s)
      | Some a \<Rightarrow>
          (Inr (), s\<lparr>UserSkillOffered :=
             delete_first (\<lambda>a. o_id a = skillId \<and> o_user_id a = userId) (UserSkillOffered s)\<rparr>))"

definition remove_wanted :: "db \<Rightarrow> oid \<Rightarrow> oid \<Rightarrow> (error + unit) \<times> db" where
  "remove_wanted s userId skillId =
     (case find (\<lambda>a. w_id a = skillId \<and> w_user_id a = userId) (UserSkillWanted s) of
        None \<Rightarrow> (Inl AssociationNotFound, s)
      | Some a \<Rightarrow>
          (Inr (), s\<lparr>UserSkillWanted :=
             delete_first (\<lambda>a. w_id a = skillId \<and> w_user_id a = userId) (UserSkillWanted s)\<rparr>))"

section \<open>Browsing (GET /users/browse)\<close>

text \<open>
  admin.js, lines 548 to 666. The regular-expression engine is a parameter:
  \<open>regex p\<close> is the case-insensitive matcher of the pattern \<open>p\<close>, or \<open>None\<close> when
  \<open>p\<close> is no regular expression (the query or \<^verbatim>\<open>new RegExp\<close> throws and the handler
  answers 500). \<open>page\<close> and \<open>limit\<close> are the query's numbers. A cursor rejects a negative
  \<^verbatim>\<open>skip\<close>, reads a limit of 0 as no limit and a negative limit as its absolute value.
\<close>

record offered_view =
  ov_id :: oid
  ov_name :: string
  ov_category :: "string option"
  ov_description :: string
  ov_proficiency_level :: proficiency

record wanted_view =
  wv_id :: oid
  wv_name :: string
  wv_category :: "string option"
  wv_description :: string
  wv_priority_level :: priority

record browse_user =
  b_id :: oid
  b_name :: string
  b_email :: string
  b_location :: "string option"
  b_availability :: "string option"
  b_profile_photo :: "string option"
  b_is_public :: bool
  offeredSkills :: "offered_view list"
  wantedSkills :: "wanted_view list"

record browse_result =
  br_users :: "browse_user list"
  br_page :: int
  br_pages :: "int option"
  br_total :: nat

definition paginate :: "int \<Rightarrow> int \<Rightarrow> 'a list \<Rightarrow> 'a list option" where
  "paginate skip cnt xs =
     (if skip < 0 then None
      else Some (if cnt = 0 then drop (nat skip) xs
                 else take (nat \<bar>cnt\<bar>) (drop (nat skip) xs)))"

fun field_matches :: "(string \<Rightarrow> bool) \<Rightarrow> string option \<Rightarrow> bool" where
  "field_matches m None = False"
| "field_matches m (Some t) = m t"

definition offered_views :: "db \<Rightarrow> oid \<Rightarrow> offered_view list option" where
  "offered_views s userId =
     those (map (\<lambda>a. map_option
                        (\<lambda>k. \<lparr>ov_id = o_id a, ov_name = sk_name k, ov_category = sk_category k,
                               ov_description = o_description a,
                               ov_proficiency_level = proficiency_level a\<rparr>)
                        (Skill_findById s (o_skill_id a)))
                (filter (\<lambda>a. o_user_id a = userId) (UserSkillOffered s)))"

definition wanted_views :: "db \<Rightarrow> oid \<Rightarrow> wanted_view list option" where
  "wanted_views s userId =
     those (map (\<lambda>a. map_option
                        (\<lambda>k. \<lparr>wv_id = w_id a, wv_name = sk_name k, wv_category = sk_category k,
                               wv_description = w_description a,
                               wv_priority_level = priority_level a\<rparr>)
                        (Skill_findById s (w_skill_id a)))
                (filter (\<lambda>a. w_user_id a = userId) (UserSkillWanted s)))"

definition with_skills :: "db \<Rightarrow> user \<Rightarrow> browse_user option" where
  "with_skills s u =
     (case offered_views s (u_id u) of
        None \<Rightarrow> None
      | Some os \<Rightarrow>
          (case wanted_views s (u_id u) of
             None \<Rightarrow> None
           | Some ws \<Rightarrow>
               Some \<lparr>b_id = u_id u, b_name = u_name u, b_email = u_email u,
                     b_location = u_location u, b_availability = u_availability u,
                     b_profile_photo = u_profile_photo u, b_is_public = is_public u,
                     offeredSkills = os, wantedSkills = ws\<rparr>))"

definition matchingUserIds :: "db \<Rightarrow> (string \<Rightarrow> bool) \<Rightarrow> oid list" where
  "matchingUserIds s m =
     map o_user_id
       (filter (\<lambda>a. find (\<lambda>u. u_id u = o_user_id a \<and> is_public u) (User s) \<noteq> None
                   \<and> find (\<lambda>k. sk_id k = o_skill_id a \<and> m (sk_name k)) (Skill s) \<noteq> None)
          (UserSkillOffered s))
     @ map w_user_id
       (filter (\<lambda>a. find (\<lambda>u. u_id u = w_user_id a \<and> is_public u) (User s) \<noteq> None
                   \<and> find (\<lambda>k. sk_id k = w_skill_id a \<and> m (sk_name k)) (Skill s) \<noteq> None)
          (UserSkillWanted s))"

definition browse_query ::
    "(string \<Rightarrow> (string \<Rightarrow> bool) option) \<Rightarrow> string \<Rightarrow> string \<Rightarrow> (user \<Rightarrow> bool) option" where
  "browse_query regex search location =
     (case (if search = [] then Some (\<lambda>u. True)
            else map_option (\<lambda>m u. m (u_name u) \<or> field_matches m (u_location u))
                   (regex search)) of
        None \<Rightarrow> None
      | Some qs \<Rightarrow>
          (case (if location = [] then Some (\<lambda>u. True)
                 else map_option (\<lambda>m u. field_matches m (u_location u)) (regex location)) of
             None \<Rightarrow> None
           | Some ql \<Rightarrow> Some (\<lambda>u. is_public u \<and> qs u \<and> ql u)))"

definition browse ::
    "(string \<Rightarrow> (string \<Rightarrow> bool) option) \<Rightarrow> db \<Rightarrow> int \<Rightarrow> int \<Rightarrow> string \<Rightarrow> string \<Rightarrow> string
      \<Rightarrow> error + browse_result" where
  "browse regex s page limit search skill location =
     (case browse_query regex search location of
        None \<Rightarrow> Inl ServerError
      | Some query \<Rightarrow>
          (case paginate ((page - 1) * limit) limit (filter query (User s)) of
             None \<Rightarrow> Inl ServerError
           | Some users \<Rightarrow>
               (case (if skill = [] then Some users
                      else map_option
                             (\<lambda>m. filter (\<lambda>u. u_id u \<in> set (matchingUserIds s m)) users)
                             (regex skill)) of
                  None \<Rightarrow> Inl ServerError
                | Some filteredUsers \<Rightarrow>
                    (case those (map (with_skills s) filteredUsers) of
                       None \<Rightarrow> Inl ServerError
                     | Some usersWithSkills \<Rightarrow>
                         Inr \<lparr>br_users = usersWithSkills, br_page = page,
                              br_pages = (if limit = 0 then None
                                          else Some (- ((- int (length (filter query (User s))))
                                                         div limit))),
                              br_total = length (filter query (User s))\<rparr>))))"

section \<open>Admin routes (server/Routes/admin.js)\<close>

text \<open>
  Every admin route runs behind \<^verbatim>\<open>authenticateToken\<close> and \<^verbatim>\<open>requireAdmin\<close>, which
  reads the admin flag of the token.
\<close>

definition requireAdmin :: "bool \<Rightarrow> error option" where
  "requireAdmin token_is_admin = (if \<not> token_is_admin then Some AdminRequired else None)"

text \<open>
  \<^verbatim>\<open>PUT /admin/users/:userId/ban\<close>, lines 111 to 143. The path parameter is a string
  no validator has seen: line 123 compares it with the token's identifier by
  \<^verbatim>\<open>===\<close>, then \<^verbatim>\<open>findByIdAndUpdate\<close> casts it, and a string that is no ObjectId
  makes the query throw, which the handler's \<^verbatim>\<open>catch\<close> answers with 500.
\<close>

definition ban_user :: "db \<Rightarrow> oid \<Rightarrow> string \<Rightarrow> bool \<Rightarrow> (error + unit) \<times> db" where
  "ban_user s adminId userId isBanned =
     (if userId = toString adminId then (Inl SelfBanForbidden, s)
      else if \<not> isMongoId userId then (Inl ServerError, s)
      else case User_findById s (ObjectId userId) of
        None \<Rightarrow> (Inl UserNotFound, s)
      | Some u \<Rightarrow>
          (Inr (), s\<lparr>User := replace_first (\<lambda>x. u_id x = ObjectId userId)
                               (u\<lparr>is_banned := isBanned\<rparr>) (User s)\<rparr>))"

text \<open>
  \<^verbatim>\<open>GET /admin/stats\<close>, lines 154 to 187. The module imports
  \<^verbatim>\<open>{ User, SwapRequest, AdminMessage, Rating }\<close> (line 17); the handler also evaluates
  \<^verbatim>\<open>Skill.countDocuments()\<close> (line 168). With the identifier unbound that expression
  throws a ReferenceError and the handler's \<^verbatim>\<open>catch\<close> answers 500.
  \<open>skill_bound\<close> says whether the module binds \<^verbatim>\<open>Skill\<close>; \<open>stats_of\<close> is the object the
  handler builds when nothing throws. The average is an exact rational here.
\<close>

record stats =
  totalUsers :: nat
  bannedUsers :: nat
  totalSwaps :: nat
  acceptedSwaps :: nat
  pendingSwaps :: nat
  totalSkills :: nat
  averageRating :: rat

definition ratingStats :: "db \<Rightarrow> rat list" where
  "ratingStats s =
     (if Rating s = [] then []
      else [of_int (sum_list (map rating (Rating s))) / of_nat (length (Rating s))])"

definition stats_of :: "db \<Rightarrow> stats" where
  "stats_of s =
     \<lparr>totalUsers = length (User s),
      bannedUsers = length (filter is_banned (User s)),
      totalSwaps = length (SwapRequest s),
      acceptedSwaps = length (filter (\<lambda>w. status w = Accepted) (SwapRequest s)),
      pendingSwaps = length (filter (\<lambda>w. status w = Pending) (SwapRequest s)),
      totalSkills = length (Skill s),
      averageRating = (case ratingStats s of [] \<Rightarrow> 0 | a # _ \<Rightarrow> a)\<rparr>"

definition get_stats_in :: "bool \<Rightarrow> db \<Rightarrow> error + stats" where
  "get_stats_in skill_bound s = (if skill_bound then Inr (stats_of s) else Inl DatabaseError)"

definition get_stats :: "db \<Rightarrow> error + stats" where
  "get_stats = get_stats_in False"

section \<open>Requests and runs\<close>

text \<open>
  The requests that write to the store, each with the caller the token names, and the
  route that serves it: the middleware chain, then the handler. A run serves a list of
  requests one at a time: each handler runs from its first database operation to its
  answer before the next request starts. Requests whose database operations interleave
  are not runs; the overlapped handlers of the next section describe them.
\<close>

datatype request =
    CreateSwap oid string oid oid "string option"
  | AcceptSwap oid oid
  | RejectSwap oid oid
  | CancelSwap oid oid
  | DeleteSwap oid oid
  | RateSwap oid oid int "string option"
  | RateSwapModels oid oid int "string option"
  | AddOffered oid oid "string option" "proficiency option"
  | AddWanted oid oid "string option" "priority option"
  | RemoveOffered oid oid
  | RemoveWanted oid oid
  | BanUser oid bool string bool

datatype reply = SwapId oid | Message

definition reply_with :: "('a \<Rightarrow> reply) \<Rightarrow> (error + 'a) \<times> db \<Rightarrow> (error + reply) \<times> db" where
  "reply_with f r = (case fst r of Inl e \<Rightarrow> (Inl e, snd r) | Inr x \<Rightarrow> (Inr (f x), snd r))"

fun route :: "db \<Rightarrow> request \<Rightarrow> (error + reply) \<times> db" where
  "route s (CreateSwap u r a b m) = reply_with SwapId (guarded s u (create_swap s u r a b m))"
| "route s (AcceptSwap u i) = reply_with (\<lambda>_. Message) (guarded s u (accept_swap s u i))"
| "route s (RejectSwap u i) = reply_with (\<lambda>_. Message) (guarded s u (reject_swap s u i))"
| "route s (CancelSwap u i) = reply_with (\<lambda>_. Message) (guarded s u (cancel_swap s u i))"
| "route s (DeleteSwap u i) = reply_with (\<lambda>_. Message) (guarded s u (delete_swap s u i))"
| "route s (RateSwap u i n f) = reply_with (\<lambda>_. Message) (guarded s u (rate_swap s u i n f))"
| "route s (RateSwapModels u i n f) =
     reply_with (\<lambda>_. Message) (guarded s u (rate_swap_models s u i n f))"
| "route s (AddOffered u k d l) = reply_with (\<lambda>_. Message) (add_offered s u k d l)"
| "route s (AddWanted u k d l) = reply_with (\<lambda>_. Message) (add_wanted s u k d l)"
| "route s (RemoveOffered u i) = reply_with (\<lambda>_. Message) (remove_offered s u i)"
| "route s (RemoveWanted u i) = reply_with (\<lambda>_. Message) (remove_wanted s u i)"
| "route s (BanUser u adm t b) =
     (case requireAdmin adm of
        Some e \<Rightarrow> (Inl e, s)
      | None \<Rightarrow> reply_with (\<lambda>_. Message) (ban_user s u t b))"

fun run :: "db \<Rightarrow> request list \<Rightarrow> db" where
  "run s [] = s"
| "run s (r # rs) = run (snd (route s r)) rs"

fun succeeded :: "(error + 'a) \<times> db \<Rightarrow> bool" where
  "succeeded (Inr x, s) = True"
| "succeeded (Inl e, s) = False"

fun transition_on :: "oid \<Rightarrow> request \<Rightarrow> bool" where
  "transition_on i (AcceptSwap u j) = (i = j)"
| "transition_on i (RejectSwap u j) = (i = j)"
| "transition_on i (CancelSwap u j) = (i = j)"
| "transition_on i (DeleteSwap u j) = (i = j)"
| "transition_on i _ = False"

text \<open>How many accept, reject and cancel requests on swap \<open>i\<close> a run answers with success.\<close>

fun transitions_done :: "oid \<Rightarrow> db \<Rightarrow> request list \<Rightarrow> nat" where
  "transitions_done i s [] = 0"
| "transitions_done i s (r # rs) =
     (if transition_on i r \<and> succeeded (route s r) then 1 else 0)
       + transitions_done i (snd (route s r)) rs"

section \<open>Overlapping requests\<close>

text \<open>
  Every database operation of a handler is awaited, so operations of other requests
  can run between a handler's read and its write. The handlers use no conditional
  update, no transaction and no unique index. An overlapped handler takes one store for
  each of its database operations, the store as it is when that operation runs; the
  last one is the store its write acts on (or the store at its answer, when it fails
  before it writes). Saving a loaded document updates the stored document with the same
  \<^verbatim>\<open>_id\<close> without looking at its status; when no such document is stored any more the
  save throws. An overlapped handler whose stores are all the same is the handler of
  the serial model.
\<close>

definition accept_swap_overlapped :: "db \<Rightarrow> db \<Rightarrow> oid \<Rightarrow> oid \<Rightarrow> (error + unit) \<times> db" where
  "accept_swap_overlapped s_read s userId swapId =
     (case SwapRequest_findById s_read swapId of
        None \<Rightarrow> (Inl SwapNotFound, s)
      | Some w \<Rightarrow>
          if recipient_id w \<noteq> userId then (Inl Forbidden, s)
          else if status w \<noteq> Pending then (Inl InvalidTransition, s)
          else if SwapRequest_findById s swapId = None then (Inl ServerError, s)
          else case SwapRequest_save s (w\<lparr>status := Accepted\<rparr>) of
                 None \<Rightarrow> (Inl ServerError, s)
               | Some s' \<Rightarrow> (Inr (), s'))"

definition reject_swap_overlapped :: "db \<Rightarrow> db \<Rightarrow> oid \<Rightarrow> oid \<Rightarrow> (error + unit) \<times> db" where
  "reject_swap_overlapped s_read s userId swapId =
     (case SwapRequest_findById s_read swapId of
        None \<Rightarrow> (Inl SwapNotFound, s)
      | Some w \<Rightarrow>
          if recipient_id w \<noteq> userId then (Inl Forbidden, s)
          else if status w \<noteq> Pending then (Inl InvalidTransition, s)
          else if SwapRequest_findById s swapId = None then (Inl ServerError, s)
          else case SwapRequest_save s (w\<lparr>status := Rejected\<rparr>) of
                 None \<Rightarrow> (Inl ServerError, s)
               | Some s' \<Rightarrow> (Inr (), s'))"

definition delete_swap_overlapped :: "db \<Rightarrow> db \<Rightarrow> oid \<Rightarrow> oid \<Rightarrow> (error + unit) \<times> db" where
  "delete_swap_overlapped s_read s userId swapId =
     (case SwapRequest_findById s_read swapId of
        None \<Rightarrow> (Inl SwapNotFound, s)
      | Some w \<Rightarrow>
          if requester_id w \<noteq> userId then (Inl Forbidden, s)
          else if status w \<noteq> Pending then (Inl InvalidTransition, s)
          else (Inr (), SwapRequest_findByIdAndDelete s swapId))"

definition create_swap_overlapped ::
    "db \<Rightarrow> db \<Rightarrow> db \<Rightarrow> db \<Rightarrow> db \<Rightarrow> oid \<Rightarrow> string \<Rightarrow> oid \<Rightarrow> oid \<Rightarrow> string option
      \<Rightarrow> (error + oid) \<times> db" where
  "create_swap_overlapped s1 s2 s3 s4 s requesterId recipientId offeredSkillId
      requestedSkillId msg =
     (if \<not> isMongoId recipientId then (Inl ValidationError, s)
      else if toString requesterId = recipientId then (Inl SelfSwap, s)
      else case User_findById s1 (ObjectId recipientId) of
        None \<Rightarrow> (Inl RecipientNotFound, s)
      | Some recipient \<Rightarrow>
          if is_banned recipient then (Inl RecipientBanned, s)
          else if UserSkillOffered_findOne s2 requesterId offeredSkillId = None
            then (Inl OfferedSkillNotOwned, s)
          else if UserSkillOffered_findOne s3 (ObjectId recipientId) requestedSkillId = None
            then (Inl RequestedSkillNotOffered, s)
          else if find (\<lambda>w. requester_id w = requesterId
                            \<and> recipient_id w = ObjectId recipientId
                            \<and> status w = Pending) (SwapRequest s4) \<noteq> None
            then (Inl DuplicatePendingRequest, s)
          else case SwapRequest_create s requesterId (ObjectId recipientId) offeredSkillId
                      requestedSkillId msg of
                 None \<Rightarrow> (Inl ServerError, s)
               | Some (w, s') \<Rightarrow> (Inr (sw_id w), s'))"

section \<open>Invariants of the store\<close>

text \<open>
  What MongoDB guarantees of identifiers: within a collection no two documents share
  an \<^verbatim>\<open>_id\<close>, and an identifier generated later differs from every one in use.
\<close>

definition wf_db :: "db \<Rightarrow> bool" where
  "wf_db s =
     (distinct (map sw_id (SwapRequest s)) \<and> list_all (\<lambda>w. sw_id w < next_id s) (SwapRequest s)
      \<and> distinct (map o_id (UserSkillOffered s))
      \<and> list_all (\<lambda>a. o_id a < next_id s) (UserSkillOffered s))"

text \<open>No two pending requests share their ordered pair of requester and recipient.\<close>

definition pending_pairs :: "db \<Rightarrow> (oid \<times> oid) list" where
  "pending_pairs s =
     map (\<lambda>w. (requester_id w, recipient_id w))
       (filter (\<lambda>w. status w = Pending) (SwapRequest s))"

definition unique_pending :: "db \<Rightarrow> bool" where
  "unique_pending s = distinct (pending_pairs s)"

text \<open>Every stored swap request carries a status of the schema's list.\<close>

definition statuses_valid :: "db \<Rightarrow> bool" where
  "statuses_valid s = list_all swap_valid (SwapRequest s)"

text \<open>No user lists a skill twice as offered.\<close>

definition offered_pairs :: "db \<Rightarrow> (oid \<times> oid) list" where
  "offered_pairs s = map (\<lambda>a. (o_user_id a, o_skill_id a)) (UserSkillOffered s)"

definition unique_offered :: "db \<Rightarrow> bool" where
  "unique_offered s = distinct (offered_pairs s)"

text \<open>
  Swap \<open>i\<close> is settled: its identifier has been handed out and no stored request with
  that identifier is pending (it left the pending state, or it was deleted).
\<close>

definition settled :: "oid \<Rightarrow> db \<Rightarrow> bool" where
  "settled i s =
     (i < next_id s \<and> list_all (\<lambda>w. sw_id w \<noteq> i \<or> status w \<noteq> Pending) (SwapRequest s))"

section \<open>A small store\<close>

text \<open>
  The scenario of the specification: Alice offers Python, Bob offers Guitar; Carol keeps
  her profile private. \<open>db0\<close> holds no swap request, \<open>db_pending\<close> holds Alice's
  request to Bob, \<open>db_accepted\<close> the same request once Bob has accepted it.
\<close>

definition alice :: user where
  "alice = \<lparr>u_id = 1, u_email = ''alice@example.com'', u_name = ''Alice'',
             u_location = Some ''Pune'', u_availability = None, u_profile_photo = None,
             is_public = True, is_admin = False, is_banned = False\<rparr>"

definition bob :: user where
  "bob = \<lparr>u_id = 2, u_email = ''bob@example.com'', u_name = ''Bob'',
           u_location = Some ''Delhi'', u_availability = None, u_profile_photo = None,
           is_public = True, is_admin = False, is_banned = False\<rparr>"

definition carol :: user where
  "carol = \<lparr>u_id = 3, u_email = ''carol@example.com'', u_name = ''Carol'',
             u_location = None, u_availability = None, u_profile_photo = None,
             is_public = False, is_admin = False, is_banned = False\<rparr>"

definition python :: skill where
  "python = \<lparr>sk_id = 11, sk_name = ''Python'', sk_category = Some ''Programming'',
              sk_description = None\<rparr>"

definition guitar :: skill where
  "guitar = \<lparr>sk_id = 12, sk_name = ''Guitar'', sk_category = Some ''Music'',
              sk_description = None\<rparr>"

definition db0 :: db where
  "db0 = \<lparr>User = [alice, bob, carol], Skill = [python, guitar],
           UserSkillOffered =
             [\<lparr>o_id = 21, o_user_id = 1, o_skill_id = 11, o_description = [],
               proficiency_level = Advanced\<rparr>,
              \<lparr>o_id = 22, o_user_id = 2, o_skill_id = 12, o_description = [],
               proficiency_level = Intermediate\<rparr>,
              \<lparr>o_id = 23, o_user_id = 3, o_skill_id = 11, o_description = [],
               proficiency_level = Beginner\<rparr>],
           UserSkillWanted = [], SwapRequest = [], Rating = [], next_id = 30\<rparr>"

definition request_ab :: swap where
  "request_ab = \<lparr>sw_id = 30, requester_id = 1, recipient_id = 2, offered_skill_id = 11,
                  requested_skill_id = 12, status = Pending, message = None\<rparr>"

definition db_pending :: db where
  "db_pending = db0\<lparr>SwapRequest := [request_ab], next_id := 31\<rparr>"

definition db_accepted :: db where
  "db_accepted = db0\<lparr>SwapRequest := [request_ab\<lparr>status := Accepted\<rparr>], next_id := 31\<rparr>"

text \<open>
  Erin's \<^verbatim>\<open>_id\<close> prints with a letter, \<^verbatim>\<open>00000000000000000000000a\<close>; \<open>erin_upper\<close>
  spells the same identifier with that letter in upper case. In \<open>db_erin\<close> she offers
  Python.
\<close>

definition erin :: user where
  "erin = \<lparr>u_id = 10, u_email = ''erin@example.com'', u_name = ''Erin'',
            u_location = None, u_availability = None, u_profile_photo = None,
            is_public = True, is_admin = False, is_banned = False\<rparr>"

definition erin_upper :: string where
  "erin_upper = ''00000000000000000000000A''"

definition db_erin :: db where
  "db_erin = \<lparr>User = [erin], Skill = [python],
               UserSkillOffered =
                 [\<lparr>o_id = 21, o_user_id = 10, o_skill_id = 11, o_description = [],
                   proficiency_level = Advanced\<rparr>],
               UserSkillWanted = [], SwapRequest = [], Rating = [], next_id = 30\<rparr>"

text \<open>A matcher for the examples: a pattern matches the texts it is a prefix of.\<close>

definition prefix_regex :: "string \<Rightarrow> (string \<Rightarrow> bool) option" where
  "prefix_regex p = Some (\<lambda>t. take (length p) t = p)"

lemmas store_defs =
  User_findById_def Skill_findById_def SwapRequest_findById_def UserSkillOffered_findOne_def
  UserSkillWanted_findOne_def Rating_findOne_def swap_status_enum_def swap_valid_def
  rating_valid_def SwapRequest_save_def SwapRequest_create_def
  SwapRequest_findByIdAndDelete_def Rating_create_def checkNotBanned_def guarded_def
  reply_with_def requireAdmin_def

lemmas example_defs =
  alice_def bob_def carol_def python_def guitar_def db0_def request_ab_def db_pending_def
  db_accepted_def erin_def db_erin_def

section \<open>Lists and handlers: auxiliary facts\<close>

lemma set_replace_first: "set (replace_first P y xs) \<subseteq> insert y (set xs)"
  by (induction xs) auto

lemma set_delete_first: "set (delete_first P xs) \<subseteq> set xs"
  by (induction xs) auto

lemma map_replace_first_key: "f y = i \<Longrightarrow> map f (replace_first (\<lambda>x. f x = i) y xs) = map f xs"
  by (induction xs) auto

lemma distinct_map_delete_first:
  "distinct (map f xs) \<Longrightarrow> distinct (map f (delete_first P xs))"
proof (induction xs)
  case Nil
  then show ?case by simp
next
  case (Cons x xs)
  have "f ` set (delete_first P xs) \<subseteq> f ` set xs"
    using set_delete_first [of P xs] by blast
  with Cons show ?case by auto
qed

lemma list_all_replace_first: "list_all Q xs \<Longrightarrow> Q y \<Longrightarrow> list_all Q (replace_first P y xs)"
  by (induction xs) auto

lemma list_all_delete_first: "list_all Q xs \<Longrightarrow> list_all Q (delete_first P xs)"
  by (induction xs) auto

lemma replace_first_only:
  "distinct (map f xs) \<Longrightarrow> f y = i \<Longrightarrow> x \<in> set (replace_first (\<lambda>x. f x = i) y xs) \<Longrightarrow> f x = i
     \<Longrightarrow> find (\<lambda>x. f x = i) xs \<noteq> None \<Longrightarrow> x = y"
  by (induction xs) (auto split: if_splits)

lemma delete_first_gone:
  "distinct (map f xs) \<Longrightarrow> x \<in> set (delete_first (\<lambda>x. f x = i) xs) \<Longrightarrow> f x \<noteq> i"
  by (induction xs) (force split: if_splits)+

lemma filter_replace_first_sub:
  "\<not> P y \<Longrightarrow> set (filter P (replace_first Q y xs)) \<subseteq> set (filter P xs)"
  by (induction xs) auto

lemma distinct_filter_replace_first:
  "\<not> P y \<Longrightarrow> distinct (map f (filter P xs)) \<Longrightarrow> distinct (map f (filter P (replace_first Q y xs)))"
proof (induction xs)
  case Nil
  then show ?case by simp
next
  case (Cons x xs)
  have "f ` set (filter P (replace_first Q y xs)) \<subseteq> f ` set (filter P xs)"
    using filter_replace_first_sub [of P y Q xs] Cons.prems(1) by blast
  with Cons show ?case by auto
qed

lemma distinct_filter_delete_first:
  "distinct (map f (filter P xs)) \<Longrightarrow> distinct (map f (filter P (delete_first Q xs)))"
proof (induction xs)
  case Nil
  then show ?case by simp
next
  case (Cons x xs)
  have "f ` set (filter P (delete_first Q xs)) \<subseteq> f ` set (filter P xs)"
    using set_delete_first [of Q xs] by auto
  with Cons show ?case by auto
qed


lemma find_by_id_key: "find (\<lambda>x. f x = i) xs = Some w \<Longrightarrow> f w = i \<and> w \<in> set xs"
  by (induction xs) (auto split: if_splits)

lemma findById_swap: "SwapRequest_findById s i = Some w \<Longrightarrow> sw_id w = i \<and> w \<in> set (SwapRequest s)"
  unfolding SwapRequest_findById_def by (rule find_by_id_key)

lemma cancel_swap_unchanged: "snd (cancel_swap s u i) = s"
  by (simp add: cancel_swap_def SwapRequest_save_def swap_valid_def swap_status_enum_def
      split: option.splits)

lemma cancel_swap_fails: "\<not> succeeded (cancel_swap s u i)"
  by (simp add: cancel_swap_def SwapRequest_save_def swap_valid_def swap_status_enum_def
      split: option.splits)

lemma accept_swap_effect:
  "accept_swap s u i = (res, s') \<Longrightarrow>
     (res \<noteq> Inr () \<and> s' = s) \<or>
     (res = Inr () \<and> (\<exists>w. SwapRequest_findById s i = Some w \<and> recipient_id w = u
        \<and> status w = Pending
        \<and> s' = s\<lparr>SwapRequest := replace_first (\<lambda>x. sw_id x = i) (w\<lparr>status := Accepted\<rparr>)
                      (SwapRequest s)\<rparr>))"
  by (auto simp: accept_swap_def SwapRequest_save_def swap_valid_def swap_status_enum_def
      dest: findById_swap split: option.splits if_splits)

lemma reject_swap_effect:
  "reject_swap s u i = (res, s') \<Longrightarrow>
     (res \<noteq> Inr () \<and> s' = s) \<or>
     (res = Inr () \<and> (\<exists>w. SwapRequest_findById s i = Some w \<and> recipient_id w = u
        \<and> status w = Pending
        \<and> s' = s\<lparr>SwapRequest := replace_first (\<lambda>x. sw_id x = i) (w\<lparr>status := Rejected\<rparr>)
                      (SwapRequest s)\<rparr>))"
  by (auto simp: reject_swap_def SwapRequest_save_def swap_valid_def swap_status_enum_def
      dest: findById_swap split: option.splits if_splits)

lemma delete_swap_effect:
  "delete_swap s u i = (res, s') \<Longrightarrow>
     (res \<noteq> Inr () \<and> s' = s) \<or>
     (res = Inr () \<and> (\<exists>w. SwapRequest_findById s i = Some w \<and> requester_id w = u
        \<and> status w = Pending
        \<and> s' = s\<lparr>SwapRequest := delete_first (\<lambda>x. sw_id x = i) (SwapRequest s)\<rparr>))"
  by (auto simp: delete_swap_def SwapRequest_findByIdAndDelete_def
      split: option.splits if_splits)

lemma create_swap_effect:
  "create_swap s u r a b m = (res, s') \<Longrightarrow>
     ((\<exists>e. res = Inl e) \<and> s' = s) \<or>
     (res = Inr (next_id s)
      \<and> (u, ObjectId r) \<notin> set (pending_pairs s)
      \<and> s' = s\<lparr>SwapRequest := SwapRequest s @
                  [\<lparr>sw_id = next_id s, requester_id = u, recipient_id = ObjectId r,
                    offered_skill_id = a, requested_skill_id = b,
                    status = Pending, message = m\<rparr>],
                next_id := Suc (next_id s)\<rparr>)"
  by (auto simp: create_swap_def SwapRequest_create_def swap_valid_def swap_status_enum_def
      pending_pairs_def find_None_iff Let_def
      split: option.splits if_splits)

lemma rate_swap_in_effect:
  "rate_swap_in b s u i n f = (res, s') \<Longrightarrow>
     SwapRequest s' = SwapRequest s \<and> UserSkillOffered s' = UserSkillOffered s
     \<and> next_id s \<le> next_id s'"
  by (auto simp: rate_swap_in_def Rating_create_def Let_def split: option.splits if_splits)

lemma add_offered_effect:
  "add_offered s u k d l = (res, s') \<Longrightarrow>
     ((\<exists>e. res = Inl e) \<and> s' = s) \<or>
     (res = Inr () \<and> Skill_findById s k \<noteq> None
      \<and> (u, k) \<notin> set (map (\<lambda>a. (o_user_id a, o_skill_id a)) (UserSkillOffered s))
      \<and> s' = s\<lparr>UserSkillOffered := UserSkillOffered s @
                  [\<lparr>o_id = next_id s, o_user_id = u, o_skill_id = k,
                    o_description = (case d of None \<Rightarrow> [] | Some x \<Rightarrow> x),
                    proficiency_level = (case l of None \<Rightarrow> Intermediate | Some x \<Rightarrow> x)\<rparr>],
                next_id := Suc (next_id s)\<rparr>)"
  by (auto simp: add_offered_def UserSkillOffered_findOne_def find_None_iff
      split: option.splits if_splits)

lemma add_wanted_effect:
  "add_wanted s u k d l = (res, s') \<Longrightarrow>
     SwapRequest s' = SwapRequest s \<and> UserSkillOffered s' = UserSkillOffered s
     \<and> next_id s \<le> next_id s'"
  by (auto simp: add_wanted_def split: option.splits if_splits)

lemma remove_offered_effect:
  "remove_offered s u i = (res, s') \<Longrightarrow>
     ((\<exists>e. res = Inl e) \<and> s' = s) \<or>
     (res = Inr ()
      \<and> s' = s\<lparr>UserSkillOffered :=
              delete_first (\<lambda>a. o_id a = i \<and> o_user_id a = u) (UserSkillOffered s)\<rparr>)"
  by (auto simp: remove_offered_def split: option.splits if_splits)

lemma remove_wanted_effect:
  "remove_wanted s u i = (res, s') \<Longrightarrow>
     SwapRequest s' = SwapRequest s \<and> UserSkillOffered s' = UserSkillOffered s
     \<and> next_id s' = next_id s"
  by (auto simp: remove_wanted_def split: option.splits if_splits)

lemma ban_user_effect:
  "ban_user s u t b = (res, s') \<Longrightarrow>
     SwapRequest s' = SwapRequest s \<and> UserSkillOffered s' = UserSkillOffered s
     \<and> next_id s' = next_id s"
  by (auto simp: ban_user_def split: option.splits if_splits)


lemma reply_with_cases:
  "reply_with f k = (res, s') \<Longrightarrow>
     (\<exists>e. k = (Inl e, s') \<and> res = Inl e) \<or> (\<exists>v. k = (Inr v, s') \<and> res = Inr (f v))"
  by (cases k) (auto simp: reply_with_def split: sum.splits)

lemma guarded_cases:
  "guarded s u k = (y, s') \<Longrightarrow> ((\<exists>e. y = Inl e) \<and> s' = s) \<or> k = (y, s')"
  by (auto simp: guarded_def split: option.splits)

lemma served_cases:
  "reply_with f (guarded s u k) = (res, s') \<Longrightarrow>
     ((\<exists>e. res = Inl e) \<and> s' = s) \<or>
     (\<exists>e. k = (Inl e, s') \<and> res = Inl e) \<or> (\<exists>v. k = (Inr v, s') \<and> res = Inr (f v))"
  by (drule reply_with_cases) (auto dest!: guarded_cases)

lemma route_cases [consumes 1, case_names other created moved deleted offered_added offered_removed]:
  assumes "route s r = (res, s')"
  obtains
    (other) "SwapRequest s' = SwapRequest s" "UserSkillOffered s' = UserSkillOffered s"
      "next_id s \<le> next_id s'" "\<And>i. transition_on i r \<Longrightarrow> \<exists>e. res = Inl e"
  | (created) w where "SwapRequest s' = SwapRequest s @ [w]" "sw_id w = next_id s"
      "status w = Pending" "(requester_id w, recipient_id w) \<notin> set (pending_pairs s)"
      "UserSkillOffered s' = UserSkillOffered s" "next_id s' = Suc (next_id s)"
      "\<And>i. \<not> transition_on i r"
  | (moved) i w st where "SwapRequest_findById s i = Some w" "status w = Pending"
      "st = Accepted \<or> st = Rejected"
      "SwapRequest s' = replace_first (\<lambda>x. sw_id x = i) (w\<lparr>status := st\<rparr>) (SwapRequest s)"
      "UserSkillOffered s' = UserSkillOffered s" "next_id s' = next_id s"
      "\<And>j. transition_on j r \<Longrightarrow> j = i"
  | (deleted) i w where "SwapRequest_findById s i = Some w" "status w = Pending"
      "SwapRequest s' = delete_first (\<lambda>x. sw_id x = i) (SwapRequest s)"
      "UserSkillOffered s' = UserSkillOffered s" "next_id s' = next_id s"
      "\<And>j. transition_on j r \<Longrightarrow> j = i"
  | (offered_added) a where "UserSkillOffered s' = UserSkillOffered s @ [a]"
      "o_id a = next_id s"
      "(o_user_id a, o_skill_id a) \<notin> set (map (\<lambda>a. (o_user_id a, o_skill_id a)) (UserSkillOffered s))"
      "SwapRequest s' = SwapRequest s" "next_id s' = Suc (next_id s)"
      "\<And>i. \<not> transition_on i r"
  | (offered_removed) P where "UserSkillOffered s' = delete_first P (UserSkillOffered s)"
      "SwapRequest s' = SwapRequest s" "next_id s' = next_id s"
      "\<And>i. \<not> transition_on i r"
proof (cases r)
  case (CreateSwap u t a b m)
  with assms have "reply_with SwapId (guarded s u (create_swap s u t a b m)) = (res, s')"
    by simp
  from served_cases [OF this] show ?thesis
  proof (elim disjE exE conjE)
    fix e assume "res = Inl e" "s' = s"
    then show ?thesis using CreateSwap by (intro other) auto
  next
    fix e assume "create_swap s u t a b m = (Inl e, s')" "res = Inl e"
    then show ?thesis using CreateSwap create_swap_effect [of s u t a b m "Inl e" s']
      by (intro other) auto
  next
    fix v assume "create_swap s u t a b m = (Inr v, s')" "res = Inr (SwapId v)"
    then show ?thesis using CreateSwap create_swap_effect [of s u t a b m "Inr v" s']
      by (intro created [of "\<lparr>sw_id = next_id s, requester_id = u, recipient_id = ObjectId t,
                    offered_skill_id = a, requested_skill_id = b,
                    status = Pending, message = m\<rparr>"]) auto
  qed
next
  case (AcceptSwap u i)
  with assms have "reply_with (\<lambda>_. Message) (guarded s u (accept_swap s u i)) = (res, s')"
    by simp
  from served_cases [OF this] show ?thesis
  proof (elim disjE exE conjE)
    fix e assume "res = Inl e" "s' = s"
    then show ?thesis using AcceptSwap by (intro other) auto
  next
    fix e assume "accept_swap s u i = (Inl e, s')" "res = Inl e"
    then show ?thesis using AcceptSwap accept_swap_effect [of s u i "Inl e" s']
      by (intro other) auto
  next
    fix v assume "accept_swap s u i = (Inr v, s')" "res = Inr Message"
    then obtain w where "SwapRequest_findById s i = Some w" "status w = Pending"
      "s' = s\<lparr>SwapRequest := replace_first (\<lambda>x. sw_id x = i) (w\<lparr>status := Accepted\<rparr>)
                      (SwapRequest s)\<rparr>"
      using accept_swap_effect [of s u i "Inr v" s'] by auto
    then show ?thesis using AcceptSwap by (intro moved [of i w Accepted]) auto
  qed
next
  case (RejectSwap u i)
  with assms have "reply_with (\<lambda>_. Message) (guarded s u (reject_swap s u i)) = (res, s')"
    by simp
  from served_cases [OF this] show ?thesis
  proof (elim disjE exE conjE)
    fix e assume "res = Inl e" "s' = s"
    then show ?thesis using RejectSwap by (intro other) auto
  next
    fix e assume "reject_swap s u i = (Inl e, s')" "res = Inl e"
    then show ?thesis using RejectSwap reject_swap_effect [of s u i "Inl e" s']
      by (intro other) auto
  next
    fix v assume "reject_swap s u i = (Inr v, s')" "res = Inr Message"
    then obtain w where "SwapRequest_findById s i = Some w" "status w = Pending"
      "s' = s\<lparr>SwapRequest := replace_first (\<lambda>x. sw_id x = i) (w\<lparr>status := Rejected\<rparr>)
                      (SwapRequest s)\<rparr>"
      using reject_swap_effect [of s u i "Inr v" s'] by auto
    then show ?thesis using RejectSwap by (intro moved [of i w Rejected]) auto
  qed
next
  case (CancelSwap u i)
  with assms have "reply_with (\<lambda>_. Message) (guarded s u (cancel_swap s u i)) = (res, s')"
    by simp
  from served_cases [OF this] show ?thesis
    using CancelSwap cancel_swap_unchanged [of s u i] cancel_swap_fails [of s u i]
    by (intro other) auto
next
  case (DeleteSwap u i)
  with assms have "reply_with (\<lambda>_. Message) (guarded s u (delete_swap s u i)) = (res, s')"
    by simp
  from served_cases [OF this] show ?thesis
  proof (elim disjE exE conjE)
    fix e assume "res = Inl e" "s' = s"
    then show ?thesis using DeleteSwap by (intro other) auto
  next
    fix e assume "delete_swap s u i = (Inl e, s')" "res = Inl e"
    then show ?thesis using DeleteSwap delete_swap_effect [of s u i "Inl e" s']
      by (intro other) auto
  next
    fix v assume "delete_swap s u i = (Inr v, s')" "res = Inr Message"
    then obtain w where "SwapRequest_findById s i = Some w" "status w = Pending"
      "s' = s\<lparr>SwapRequest := delete_first (\<lambda>x. sw_id x = i) (SwapRequest s)\<rparr>"
      using delete_swap_effect [of s u i "Inr v" s'] by auto
    then show ?thesis using DeleteSwap by (intro deleted [of i w]) auto
  qed
next
  case (RateSwap u i n f)
  with assms have "reply_with (\<lambda>_. Message) (guarded s u (rate_swap_in False s u i n f)) = (res, s')"
    by (simp add: rate_swap_def)
  from served_cases [OF this] show ?thesis
    using RateSwap by (intro other) (auto dest: rate_swap_in_effect)
next
  case (RateSwapModels u i n f)
  with assms have "reply_with (\<lambda>_. Message) (guarded s u (rate_swap_in True s u i n f)) = (res, s')"
    by (simp add: rate_swap_models_def)
  from served_cases [OF this] show ?thesis
    using RateSwapModels by (intro other) (auto dest: rate_swap_in_effect)
next
  case (AddOffered u k d l)
  with assms have *: "reply_with (\<lambda>_. Message) (add_offered s u k d l) = (res, s')"
    by simp
  from reply_with_cases [OF *] show ?thesis
  proof (elim disjE exE conjE)
    fix e assume "add_offered s u k d l = (Inl e, s')" "res = Inl e"
    then show ?thesis using AddOffered add_offered_effect [of s u k d l "Inl e" s']
      by (intro other) auto
  next
    fix v assume "add_offered s u k d l = (Inr v, s')" "res = Inr Message"
    then show ?thesis using AddOffered add_offered_effect [of s u k d l "Inr v" s']
      by (intro offered_added [of "\<lparr>o_id = next_id s, o_user_id = u, o_skill_id = k,
                    o_description = (case d of None \<Rightarrow> [] | Some x \<Rightarrow> x),
                    proficiency_level = (case l of None \<Rightarrow> Intermediate | Some x \<Rightarrow> x)\<rparr>"])
        auto
  qed
next
  case (AddWanted u k d l)
  with assms have *: "reply_with (\<lambda>_. Message) (add_wanted s u k d l) = (res, s')"
    by simp
  from reply_with_cases [OF *] show ?thesis
    using AddWanted by (intro other) (auto dest: add_wanted_effect)
next
  case (RemoveOffered u i)
  with assms have *: "reply_with (\<lambda>_. Message) (remove_offered s u i) = (res, s')"
    by simp
  from reply_with_cases [OF *] show ?thesis
  proof (elim disjE exE conjE)
    fix e assume "remove_offered s u i = (Inl e, s')" "res = Inl e"
    then show ?thesis using RemoveOffered remove_offered_effect [of s u i "Inl e" s']
      by (intro other) auto
  next
    fix v assume "remove_offered s u i = (Inr v, s')" "res = Inr Message"
    then show ?thesis using RemoveOffered remove_offered_effect [of s u i "Inr v" s']
      by (intro offered_removed [of "\<lambda>a. o_id a = i \<and> o_user_id a = u"]) auto
  qed
next
  case (RemoveWanted u i)
  with assms have *: "reply_with (\<lambda>_. Message) (remove_wanted s u i) = (res, s')"
    by simp
  from reply_with_cases [OF *] show ?thesis
    using RemoveWanted by (intro other) (auto dest: remove_wanted_effect)
next
  case (BanUser u adm t b)
  show ?thesis
  proof (cases "requireAdmin adm")
    case None
    with assms BanUser have *: "reply_with (\<lambda>_. Message) (ban_user s u t b) = (res, s')"
      by simp
    from reply_with_cases [OF *] show ?thesis
      using BanUser by (intro other) (auto dest: ban_user_effect)
  next
    case (Some e)
    with assms BanUser show ?thesis by (intro other) auto
  qed
qed


lemma route_statuses_valid:
  assumes "statuses_valid s"
  shows "statuses_valid (snd (route s r))"
proof -
  obtain res s' where rt: "route s r = (res, s')" by (cases "route s r")
  from rt have "statuses_valid s'"
  proof (cases rule: route_cases)
    case (moved i w st)
    then have "swap_valid (w\<lparr>status := st\<rparr>)"
      by (auto simp: swap_valid_def swap_status_enum_def)
    with moved assms show ?thesis
      by (simp add: statuses_valid_def list_all_replace_first)
  next
    case (created w)
    with assms show ?thesis
      by (simp add: statuses_valid_def swap_valid_def swap_status_enum_def)
  qed (use assms in \<open>simp_all add: statuses_valid_def list_all_delete_first\<close>)
  with rt show ?thesis by simp
qed

lemma list_all_less_mono:
  "list_all (\<lambda>x. f x < (n::nat)) xs \<Longrightarrow> n \<le> m \<Longrightarrow> list_all (\<lambda>x. f x < m) xs"
  by (induction xs) auto

lemma distinct_snoc_fresh:
  "distinct (map f xs) \<Longrightarrow> list_all (\<lambda>x. f x < (n::nat)) xs \<Longrightarrow> f y = n
     \<Longrightarrow> distinct (map f (xs @ [y]))"
  by (auto simp: list_all_iff)

lemma route_wf_db:
  assumes "wf_db s"
  shows "wf_db (snd (route s r))"
proof -
  obtain res s' where rt: "route s r = (res, s')" by (cases "route s r")
  from assms have d: "distinct (map sw_id (SwapRequest s))"
    and b: "list_all (\<lambda>w. sw_id w < next_id s) (SwapRequest s)"
    and d': "distinct (map o_id (UserSkillOffered s))"
    and b': "list_all (\<lambda>a. o_id a < next_id s) (UserSkillOffered s)"
    by (simp_all add: wf_db_def)
  from rt have "wf_db s'"
  proof (cases rule: route_cases)
    case other
    with d b d' b' show ?thesis
      by (simp add: wf_db_def list_all_less_mono)
  next
    case (created w)
    with d b d' b' show ?thesis
      by (simp add: wf_db_def distinct_snoc_fresh list_all_less_mono del: distinct_append map_append)
  next
    case (moved i w st)
    from moved(1) have "sw_id (w\<lparr>status := st\<rparr>) = i" "w \<in> set (SwapRequest s)"
      by (auto dest: findById_swap)
    moreover from this b have "sw_id (w\<lparr>status := st\<rparr>) < next_id s"
      by (auto simp: list_all_iff)
    ultimately show ?thesis using moved d b d' b'
      by (simp add: wf_db_def map_replace_first_key list_all_replace_first)
  next
    case (deleted i w)
    with d b d' b' show ?thesis
      by (simp add: wf_db_def distinct_map_delete_first list_all_delete_first)
  next
    case (offered_added a)
    with d b d' b' show ?thesis
      by (simp add: wf_db_def distinct_snoc_fresh list_all_less_mono del: distinct_append map_append)
  next
    case (offered_removed P)
    with d b d' b' show ?thesis
      by (simp add: wf_db_def distinct_map_delete_first list_all_delete_first)
  qed
  with rt show ?thesis by simp
qed

lemma route_unique_pending:
  assumes "unique_pending s"
  shows "unique_pending (snd (route s r))"
proof -
  obtain res s' where rt: "route s r = (res, s')" by (cases "route s r")
  from rt have "unique_pending s'"
  proof (cases rule: route_cases)
    case (created w)
    with assms show ?thesis
      by (simp add: unique_pending_def pending_pairs_def)
  next
    case (moved i w st)
    then have "\<not> status (w\<lparr>status := st\<rparr>) = Pending" by auto
    from distinct_filter_replace_first [of "\<lambda>w. status w = Pending", OF this] moved assms
    show ?thesis
      by (simp add: unique_pending_def pending_pairs_def)
  next
    case (deleted i w)
    with assms show ?thesis
      by (simp add: unique_pending_def pending_pairs_def distinct_filter_delete_first)
  qed (use assms in \<open>simp_all add: unique_pending_def pending_pairs_def\<close>)
  with rt show ?thesis by simp
qed

lemma route_unique_offered:
  assumes "unique_offered s"
  shows "unique_offered (snd (route s r))"
proof -
  obtain res s' where rt: "route s r = (res, s')" by (cases "route s r")
  from rt have "unique_offered s'"
  proof (cases rule: route_cases)
    case (offered_added a)
    with assms show ?thesis
      by (simp add: unique_offered_def offered_pairs_def)
  next
    case (offered_removed P)
    with assms show ?thesis
      by (simp add: unique_offered_def offered_pairs_def distinct_map_delete_first)
  qed (use assms in \<open>simp_all add: unique_offered_def offered_pairs_def\<close>)
  with rt show ?thesis by simp
qed


lemma settled_route:
  assumes "settled i s"
  shows "settled i (snd (route s r))"
proof -
  obtain res s' where rt: "route s r = (res, s')" by (cases "route s r")
  from assms have lt: "i < next_id s"
    and np: "list_all (\<lambda>w. sw_id w \<noteq> i \<or> status w \<noteq> Pending) (SwapRequest s)"
    by (simp_all add: settled_def)
  from rt have "settled i s'"
  proof (cases rule: route_cases)
    case (moved j w st)
    then have "sw_id (w\<lparr>status := st\<rparr>) \<noteq> i \<or> status (w\<lparr>status := st\<rparr>) \<noteq> Pending"
      by auto
    with moved lt np show ?thesis
      by (simp add: settled_def list_all_replace_first)
  qed (use lt np in \<open>auto simp: settled_def list_all_delete_first\<close>)
  with rt show ?thesis by simp
qed

lemma settled_refuses:
  assumes "settled i s" and "transition_on i r"
  shows "\<not> succeeded (route s r)"
proof -
  obtain res s' where rt: "route s r = (res, s')" by (cases "route s r")
  from assms have np: "list_all (\<lambda>w. sw_id w \<noteq> i \<or> status w \<noteq> Pending) (SwapRequest s)"
    by (simp add: settled_def)
  from rt have "\<exists>e. res = Inl e"
  proof (cases rule: route_cases)
    case (moved j w st)
    with assms(2) have "SwapRequest_findById s i = Some w" "status w = Pending" by auto
    with np show ?thesis by (auto dest!: findById_swap simp: list_all_iff)
  next
    case (deleted j w)
    with assms(2) have "SwapRequest_findById s i = Some w" "status w = Pending" by auto
    with np show ?thesis by (auto dest!: findById_swap simp: list_all_iff)
  qed (use assms(2) in auto)
  with rt show ?thesis by auto
qed

lemma transition_settles:
  assumes "wf_db s" and "transition_on i r" and "succeeded (route s r)"
  shows "settled i (snd (route s r))"
proof -
  obtain res s' where rt: "route s r = (res, s')" by (cases "route s r")
  from assms(1) have d: "distinct (map sw_id (SwapRequest s))"
    and b: "list_all (\<lambda>w. sw_id w < next_id s) (SwapRequest s)"
    by (simp_all add: wf_db_def)
  from assms(3) rt have ok: "\<exists>v. res = Inr v" by (cases res) auto
  from rt have "settled i s'"
  proof (cases rule: route_cases)
    case (moved j w st)
    with assms(2) have j: "j = i" by simp
    from moved(1) j have w: "sw_id w = i" "w \<in> set (SwapRequest s)"
      by (auto dest: findById_swap)
    with b have "i < next_id s" by (auto simp: list_all_iff)
    moreover have "x \<in> set (SwapRequest s') \<Longrightarrow> sw_id x = i \<Longrightarrow> status x \<noteq> Pending" for x
    proof -
      assume x: "x \<in> set (SwapRequest s')" "sw_id x = i"
      have "find (\<lambda>x. sw_id x = i) (SwapRequest s) \<noteq> None"
        using moved(1) j by (simp add: SwapRequest_findById_def)
      with x moved(4) j w d have "x = w\<lparr>status := st\<rparr>"
        using replace_first_only [of sw_id "SwapRequest s" "w\<lparr>status := st\<rparr>" i x] by simp
      with moved(3) show ?thesis by auto
    qed
    ultimately show ?thesis using moved by (auto simp: settled_def list_all_iff)
  next
    case (deleted j w)
    with assms(2) have j: "j = i" by simp
    from deleted(1) j have w: "sw_id w = i" "w \<in> set (SwapRequest s)"
      by (auto dest: findById_swap)
    with b have "i < next_id s" by (auto simp: list_all_iff)
    moreover have "x \<in> set (SwapRequest s') \<Longrightarrow> sw_id x \<noteq> i" for x
      using delete_first_gone [of sw_id "SwapRequest s" x i] d deleted(3) j by simp
    ultimately show ?thesis using deleted by (auto simp: settled_def list_all_iff)
  qed (use assms(2) ok in auto)
  with rt show ?thesis by simp
qed

lemma settled_transitions_done:
  "settled i s \<Longrightarrow> transitions_done i s rs = 0"
proof (induction rs arbitrary: s)
  case Nil
  then show ?case by simp
next
  case (Cons r rs)
  from Cons.prems have "settled i (snd (route s r))" by (rule settled_route)
  then have "transitions_done i (snd (route s r)) rs = 0" by (rule Cons.IH)
  moreover have "\<not> (transition_on i r \<and> succeeded (route s r))"
    using settled_refuses [OF Cons.prems] by blast
  ultimately show ?case by simp
qed

lemma transitions_done_le_1:
  "wf_db s \<Longrightarrow> transitions_done i s rs \<le> 1"
proof (induction rs arbitrary: s)
  case Nil
  then show ?case by simp
next
  case (Cons r rs)
  show ?case
  proof (cases "transition_on i r \<and> succeeded (route s r)")
    case True
    with Cons.prems have "settled i (snd (route s r))" by (simp add: transition_settles)
    then have "transitions_done i (snd (route s r)) rs = 0" by (rule settled_transitions_done)
    with True show ?thesis by simp
  next
    case False
    from Cons.prems have "wf_db (snd (route s r))" by (rule route_wf_db)
    then have "transitions_done i (snd (route s r)) rs \<le> 1" by (rule Cons.IH)
    with False show ?thesis by auto
  qed
qed


lemma find_replace_first_other:
  "f y = j \<Longrightarrow> j \<noteq> i \<Longrightarrow>
     find (\<lambda>x. f x = i) (replace_first (\<lambda>x. f x = j) y xs) = find (\<lambda>x. f x = i) xs"
  by (induction xs) auto

lemma find_delete_first_other:
  "j \<noteq> i \<Longrightarrow> find (\<lambda>x. f x = i) (delete_first (\<lambda>x. f x = j) xs) = find (\<lambda>x. f x = i) xs"
  by (induction xs) auto

lemma find_append_Some: "find P xs = Some w \<Longrightarrow> find P (xs @ ys) = Some w"
  by (induction xs) (auto split: if_splits)

lemma terminal_kept:
  assumes "SwapRequest_findById s i = Some w" and "status w \<noteq> Pending"
  shows "SwapRequest_findById (snd (route s r)) i = Some w"
proof -
  obtain res s' where rt: "route s r = (res, s')" by (cases "route s r")
  from rt have "SwapRequest_findById s' i = Some w"
  proof (cases rule: route_cases)
    case (created x)
    with assms show ?thesis by (simp add: SwapRequest_findById_def find_append_Some)
  next
    case (moved j x st)
    with assms have "j \<noteq> i" by auto
    moreover from moved(1) have "sw_id (x\<lparr>status := st\<rparr>) = j" by (auto dest: findById_swap)
    ultimately show ?thesis using moved(4) assms(1)
      by (simp add: SwapRequest_findById_def find_replace_first_other)
  next
    case (deleted j x)
    with assms have "j \<noteq> i" by auto
    then show ?thesis using deleted(3) assms(1)
      by (simp add: SwapRequest_findById_def find_delete_first_other)
  qed (use assms in \<open>simp_all add: SwapRequest_findById_def\<close>)
  with rt show ?thesis by simp
qed

lemma terminal_kept_run:
  "SwapRequest_findById s i = Some w \<Longrightarrow> status w \<noteq> Pending
     \<Longrightarrow> SwapRequest_findById (run s rs) i = Some w"
  by (induction rs arbitrary: s) (simp_all add: terminal_kept)

lemma terminal_refused:
  assumes "SwapRequest_findById s i = Some w" and "status w \<noteq> Pending"
  shows "accept_swap s u i = (Inl (if recipient_id w = u then InvalidTransition else Forbidden), s)"
    and "reject_swap s u i = (Inl (if recipient_id w = u then InvalidTransition else Forbidden), s)"
    and "cancel_swap s u i = (Inl (if requester_id w = u then InvalidTransition else Forbidden), s)"
    and "delete_swap s u i = (Inl (if requester_id w = u then InvalidTransition else Forbidden), s)"
  using assms by (simp_all add: accept_swap_def reject_swap_def cancel_swap_def delete_swap_def)

lemma guarded_admitted: "checkNotBanned s u = None \<Longrightarrow> guarded s u k = k"
  by (simp add: guarded_def)

lemma terminal_route_refused:
  assumes "SwapRequest_findById s i = Some w" and "status w \<noteq> Pending"
    and "transition_on i r"
  shows "\<not> succeeded (route s r) \<and> snd (route s r) = s"
proof (cases r)
  case (AcceptSwap u j)
  with assms show ?thesis
    by (simp add: terminal_refused guarded_def reply_with_def split: option.splits)
next
  case (RejectSwap u j)
  with assms show ?thesis
    by (simp add: terminal_refused guarded_def reply_with_def split: option.splits)
next
  case (CancelSwap u j)
  with assms show ?thesis
    by (simp add: terminal_refused guarded_def reply_with_def split: option.splits)
next
  case (DeleteSwap u j)
  with assms show ?thesis
    by (simp add: terminal_refused guarded_def reply_with_def split: option.splits)
qed (use assms(3) in simp_all)

section \<open>The swap lifecycle\<close>

text \<open>
  Claim C2, as amended. When requests are served one at a time, each handler to its
  answer before the next starts: among the accept, reject and cancel requests that a run
  serves on one swap request, at most one is answered with success. Once a stored
  request has left the pending state, every run that follows leaves its document as it
  is, and every accept, reject or cancel attempt on it fails and changes nothing,
  whoever sends it. The handler, which a caller reaches once the middleware has admitted them,
  fails with \<open>Forbidden\<close> when the caller is not the party the operation belongs to
  (the recipient for accept and reject, the requester for cancel), and with
  \<open>InvalidTransition\<close> otherwise.
\<close>

theorem swap_transitions_at_most_once:
  assumes "wf_db s"
  shows "transitions_done i s rs \<le> 1
    \<and> (\<forall>w u. SwapRequest_findById s i = Some w \<and> status w \<noteq> Pending \<longrightarrow>
          SwapRequest_findById (run s rs) i = Some w
        \<and> accept_swap (run s rs) u i =
            (Inl (if recipient_id w = u then InvalidTransition else Forbidden), run s rs)
        \<and> reject_swap (run s rs) u i =
            (Inl (if recipient_id w = u then InvalidTransition else Forbidden), run s rs)
        \<and> cancel_swap (run s rs) u i =
            (Inl (if requester_id w = u then InvalidTransition else Forbidden), run s rs)
        \<and> delete_swap (run s rs) u i =
            (Inl (if requester_id w = u then InvalidTransition else Forbidden), run s rs)
        \<and> (\<forall>r. transition_on i r \<longrightarrow>
              \<not> succeeded (route (run s rs) r) \<and> snd (route (run s rs) r) = run s rs))"
proof (intro conjI allI impI)
  show "transitions_done i s rs \<le> 1" using assms by (rule transitions_done_le_1)
next
  fix w u
  assume "SwapRequest_findById s i = Some w \<and> status w \<noteq> Pending"
  then have k: "SwapRequest_findById (run s rs) i = Some w" and t: "status w \<noteq> Pending"
    by (simp_all add: terminal_kept_run)
  show "SwapRequest_findById (run s rs) i = Some w" by (rule k)
  show "accept_swap (run s rs) u i =
      (Inl (if recipient_id w = u then InvalidTransition else Forbidden), run s rs)"
    by (rule terminal_refused [OF k t])
  show "reject_swap (run s rs) u i =
      (Inl (if recipient_id w = u then InvalidTransition else Forbidden), run s rs)"
    by (rule terminal_refused [OF k t])
  show "cancel_swap (run s rs) u i =
      (Inl (if requester_id w = u then InvalidTransition else Forbidden), run s rs)"
    by (rule terminal_refused [OF k t])
  show "delete_swap (run s rs) u i =
      (Inl (if requester_id w = u then InvalidTransition else Forbidden), run s rs)"
    by (rule terminal_refused [OF k t])
  fix r assume r: "transition_on i r"
  from terminal_route_refused [OF k t r]
  show "\<not> succeeded (route (run s rs) r)" and "snd (route (run s rs) r) = run s rs"
    by simp_all
qed

theorem swap_transitions_at_most_once_witness:
  "wf_db db_pending
   \<and> transitions_done 30 db_pending [AcceptSwap 2 30, RejectSwap 2 30, DeleteSwap 1 30] = 1
   \<and> transitions_done 30 db_pending [AcceptSwap 2 30, RejectSwap 2 30, DeleteSwap 1 30] \<le> 1
   \<and> wf_db db_accepted
   \<and> SwapRequest_findById db_accepted 30 = Some (request_ab\<lparr>status := Accepted\<rparr>)
   \<and> status (request_ab\<lparr>status := Accepted\<rparr>) \<noteq> Pending
   \<and> SwapRequest_findById (run db_accepted [RejectSwap 2 30, DeleteSwap 1 30]) 30
       = Some (request_ab\<lparr>status := Accepted\<rparr>)
   \<and> accept_swap (run db_accepted []) 2 30 = (Inl InvalidTransition, db_accepted)
   \<and> accept_swap (run db_accepted []) 1 30 = (Inl Forbidden, db_accepted)
   \<and> cancel_swap (run db_accepted []) 1 30 = (Inl InvalidTransition, db_accepted)
   \<and> delete_swap (run db_accepted []) 2 30 = (Inl Forbidden, db_accepted)
   \<and> \<not> succeeded (route (run db_accepted []) (RejectSwap 2 30))
   \<and> snd (route (run db_accepted []) (RejectSwap 2 30)) = run db_accepted []"
proof -
  let ?rs = "[AcceptSwap 2 30, RejectSwap 2 30, DeleteSwap 1 30]"
  let ?w = "request_ab\<lparr>status := Accepted\<rparr>"
  have w1: "wf_db db_pending" and w2: "wf_db db_accepted"
    by (simp_all add: wf_db_def example_defs)
  have n: "transitions_done 30 db_pending ?rs = 1"
    by (simp add: example_defs store_defs accept_swap_def reject_swap_def delete_swap_def)
  have f: "SwapRequest_findById db_accepted 30 = Some ?w" and st: "status ?w \<noteq> Pending"
    by (simp_all add: example_defs store_defs)
  have rq: "requester_id ?w = 1" "recipient_id ?w = 2"
    by (simp_all add: example_defs)
  note t1 = swap_transitions_at_most_once [OF w1, of 30 ?rs]
  note t2 = swap_transitions_at_most_once [OF w2, of 30 "[RejectSwap 2 30, DeleteSwap 1 30]"]
  note t3 = swap_transitions_at_most_once [OF w2, of 30 "[]"]
  from t1 have a: "transitions_done 30 db_pending ?rs \<le> 1" by blast
  from t2 f st have b: "SwapRequest_findById (run db_accepted [RejectSwap 2 30, DeleteSwap 1 30]) 30
       = Some ?w" by blast
  from t3 f st have
    "accept_swap (run db_accepted []) 2 30 =
       (Inl (if recipient_id ?w = 2 then InvalidTransition else Forbidden), run db_accepted [])"
    "accept_swap (run db_accepted []) 1 30 =
       (Inl (if recipient_id ?w = 1 then InvalidTransition else Forbidden), run db_accepted [])"
    "cancel_swap (run db_accepted []) 1 30 =
       (Inl (if requester_id ?w = 1 then InvalidTransition else Forbidden), run db_accepted [])"
    "delete_swap (run db_accepted []) 2 30 =
       (Inl (if requester_id ?w = 2 then InvalidTransition else Forbidden), run db_accepted [])"
    by blast+
  with rq have c:
    "accept_swap (run db_accepted []) 2 30 = (Inl InvalidTransition, db_accepted)"
    "accept_swap (run db_accepted []) 1 30 = (Inl Forbidden, db_accepted)"
    "cancel_swap (run db_accepted []) 1 30 = (Inl InvalidTransition, db_accepted)"
    "delete_swap (run db_accepted []) 2 30 = (Inl Forbidden, db_accepted)"
    by simp_all
  have tr: "transition_on 30 (RejectSwap 2 30)" by simp
  from t3 f st tr have r:
    "\<not> succeeded (route (run db_accepted []) (RejectSwap 2 30))"
    "snd (route (run db_accepted []) (RejectSwap 2 30)) = run db_accepted []"
    by blast+
  from w1 n a w2 f st b c r show ?thesis by (intro conjI)
qed

text \<open>
  Claim C2 as stated fails in two ways. Bob has accepted Alice's request, so its status
  is final; Alice, who is not the recipient, then tries to accept it, and the answer is
  \<open>Forbidden\<close>, not \<open>InvalidTransition\<close>. And when requests overlap, more than one
  transition succeeds: Bob's accept and Bob's reject both read the pending request
  before either writes; the accept is saved and answered with success, then the reject
  is saved over the accepted request and answered with success as well. In the same
  way Alice's cancel, having read the pending request, deletes the accepted one.
\<close>

theorem swap_transitions_counterexample:
  "SwapRequest_findById db_accepted 30 = Some (request_ab\<lparr>status := Accepted\<rparr>)
   \<and> accept_swap db_accepted 1 30 = (Inl Forbidden, db_accepted)
   \<and> route db_accepted (AcceptSwap 1 30) = (Inl Forbidden, db_accepted)
   \<and> accept_swap_overlapped db_pending db_pending 2 30 = (Inr (), db_accepted)
   \<and> reject_swap_overlapped db_pending db_accepted 2 30
       = (Inr (), db0\<lparr>SwapRequest := [request_ab\<lparr>status := Rejected\<rparr>], next_id := 31\<rparr>)
   \<and> delete_swap_overlapped db_pending db_accepted 1 30 = (Inr (), db0\<lparr>next_id := 31\<rparr>)"
  by (simp add: example_defs store_defs accept_swap_def accept_swap_overlapped_def
      reject_swap_overlapped_def delete_swap_overlapped_def)

text \<open>An overlapped handler whose operations all meet the same store is the serial one.\<close>

lemma overlapped_serial:
  "accept_swap_overlapped s s u i = accept_swap s u i"
  "reject_swap_overlapped s s u i = reject_swap s u i"
  "delete_swap_overlapped s s u i = delete_swap s u i"
  "create_swap_overlapped s s s s s u r a b m = create_swap s u r a b m"
  by (simp_all add: accept_swap_overlapped_def accept_swap_def reject_swap_overlapped_def
      reject_swap_def delete_swap_overlapped_def delete_swap_def create_swap_overlapped_def
      create_swap_def split: option.splits)

lemma find_None_ball: "(find P xs = None) = (\<forall>x\<in>set xs. \<not> P x)"
  by (auto simp: find_None_iff)

section \<open>Creating a swap request\<close>

text \<open>
  The creation handler is the ordered chain of its checks over the stored collections:
  the recipient's identifier must be well-formed; then the six validations follow, the
  first of them a comparison of the two identifier strings. When all pass, a pending
  request with a fresh identifier is appended and that identifier returned.
\<close>

lemma create_swap_checks:
  "create_swap s u r a b m =
     (if \<not> isMongoId r then (Inl ValidationError, s)
      else if toString u = r then (Inl SelfSwap, s)
      else if \<forall>x\<in>set (User s). u_id x \<noteq> ObjectId r then (Inl RecipientNotFound, s)
      else if \<exists>x. User_findById s (ObjectId r) = Some x \<and> is_banned x
        then (Inl RecipientBanned, s)
      else if \<forall>x\<in>set (UserSkillOffered s). \<not> (o_user_id x = u \<and> o_skill_id x = a)
        then (Inl OfferedSkillNotOwned, s)
      else if \<forall>x\<in>set (UserSkillOffered s). \<not> (o_user_id x = ObjectId r \<and> o_skill_id x = b)
        then (Inl RequestedSkillNotOffered, s)
      else if (u, ObjectId r) \<in> set (pending_pairs s) then (Inl DuplicatePendingRequest, s)
      else (Inr (next_id s),
            s\<lparr>SwapRequest := SwapRequest s @
                 [\<lparr>sw_id = next_id s, requester_id = u, recipient_id = ObjectId r,
                   offered_skill_id = a, requested_skill_id = b,
                   status = Pending, message = m\<rparr>],
               next_id := Suc (next_id s)\<rparr>))"
proof -
  have p: "((u, ObjectId r) \<in> set (pending_pairs s)) =
      (find (\<lambda>w. requester_id w = u \<and> recipient_id w = ObjectId r \<and> status w = Pending)
              (SwapRequest s) \<noteq> None)"
    by (auto simp: find_None_ball pending_pairs_def)
  have n: "(\<forall>x\<in>set (User s). u_id x \<noteq> ObjectId r) = (User_findById s (ObjectId r) = None)"
    by (simp add: User_findById_def find_None_ball)
  have o1: "(\<forall>x\<in>set (UserSkillOffered s). \<not> (o_user_id x = u \<and> o_skill_id x = a))
      = (UserSkillOffered_findOne s u a = None)"
    by (simp add: UserSkillOffered_findOne_def find_None_ball)
  have o2: "(\<forall>x\<in>set (UserSkillOffered s). \<not> (o_user_id x = ObjectId r \<and> o_skill_id x = b))
      = (UserSkillOffered_findOne s (ObjectId r) b = None)"
    by (simp add: UserSkillOffered_findOne_def find_None_ball)
  have c: "SwapRequest_create s u (ObjectId r) a b m =
      Some (\<lparr>sw_id = next_id s, requester_id = u, recipient_id = ObjectId r,
                   offered_skill_id = a, requested_skill_id = b,
                   status = Pending, message = m\<rparr>,
            s\<lparr>SwapRequest := SwapRequest s @
                 [\<lparr>sw_id = next_id s, requester_id = u, recipient_id = ObjectId r,
                   offered_skill_id = a, requested_skill_id = b,
                   status = Pending, message = m\<rparr>],
               next_id := Suc (next_id s)\<rparr>)"
    by (simp add: SwapRequest_create_def swap_valid_def swap_status_enum_def Let_def)
  show ?thesis
    unfolding n o1 o2 p create_swap_def c
    by (cases "User_findById s (ObjectId r)") simp_all
qed

text \<open>The identifier strings of the examples.\<close>

lemma erin_text: "toString 10 = ''00000000000000000000000a''"
  by code_simp

lemma id_text_facts:
  "isMongoId erin_upper" "ObjectId erin_upper = 10" "toString 10 \<noteq> erin_upper"
  "isMongoId (toString 1)" "isMongoId (toString 2)" "isMongoId (toString 10)"
  "ObjectId (toString 1) = 1" "ObjectId (toString 2) = 2"
  "toString 1 \<noteq> toString 2" "toString 2 \<noteq> toString 1"
  "isMongoId (toString (Suc 0))" "ObjectId (toString (Suc 0)) = Suc 0"
  "toString (Suc 0) \<noteq> toString 2" "toString 2 \<noteq> toString (Suc 0)"
  by code_simp+

text \<open>
  Claim C3: the code departs from the claim. Erin sends a creation request whose
  recipient identifier is her own, with its letter in upper case. The validator accepts
  the string; line 52 compares it with the token's lower-case string and finds them
  different; every query then casts it to Erin's ObjectId. No \<open>SelfSwap\<close> is answered:
  the request is created, with Erin as requester and recipient. With the lower-case
  spelling the same call is refused.
\<close>

theorem create_swap_self_request_stored:
  "u_id erin = 10 \<and> toString (u_id erin) = ''00000000000000000000000a''
   \<and> erin_upper = ''00000000000000000000000A''
   \<and> isMongoId erin_upper \<and> ObjectId erin_upper = u_id erin
   \<and> create_swap db_erin 10 erin_upper 11 11 None
       = (Inr 30, db_erin\<lparr>SwapRequest :=
            [\<lparr>sw_id = 30, requester_id = 10, recipient_id = 10, offered_skill_id = 11,
              requested_skill_id = 11, status = Pending, message = None\<rparr>],
            next_id := 31\<rparr>)
   \<and> route db_erin (CreateSwap 10 erin_upper 11 11 None)
       = (Inr (SwapId 30), db_erin\<lparr>SwapRequest :=
            [\<lparr>sw_id = 30, requester_id = 10, recipient_id = 10, offered_skill_id = 11,
              requested_skill_id = 11, status = Pending, message = None\<rparr>],
            next_id := 31\<rparr>)
   \<and> create_swap db_erin 10 (toString 10) 11 11 None = (Inl SelfSwap, db_erin)"
proof -
  have e: "u_id erin = 10" "erin_upper = ''00000000000000000000000A''"
    by (simp_all add: erin_def erin_upper_def)
  have c: "create_swap db_erin 10 erin_upper 11 11 None
       = (Inr 30, db_erin\<lparr>SwapRequest :=
            [\<lparr>sw_id = 30, requester_id = 10, recipient_id = 10, offered_skill_id = 11,
              requested_skill_id = 11, status = Pending, message = None\<rparr>],
            next_id := 31\<rparr>)"
    by (simp add: create_swap_def id_text_facts store_defs db_erin_def erin_def Let_def)
  have g: "checkNotBanned db_erin 10 = None"
    by (simp add: store_defs db_erin_def erin_def)
  have r: "route db_erin (CreateSwap 10 erin_upper 11 11 None)
       = (Inr (SwapId 30), db_erin\<lparr>SwapRequest :=
            [\<lparr>sw_id = 30, requester_id = 10, recipient_id = 10, offered_skill_id = 11,
              requested_skill_id = 11, status = Pending, message = None\<rparr>],
            next_id := 31\<rparr>)"
    by (simp add: c g guarded_def reply_with_def)
  have s: "create_swap db_erin 10 (toString 10) 11 11 None = (Inl SelfSwap, db_erin)"
    by (simp add: create_swap_def id_text_facts)
  from e c r s erin_text id_text_facts(1,2) show ?thesis by simp
qed


lemma pair_if: "(Inl (if c then x else y), s) = (if c then (Inl x, s) else (Inl y, s))"
  by simp

lemma run_unique_pending: "unique_pending s \<Longrightarrow> unique_pending (run s rs)"
  by (induction rs arbitrary: s) (simp_all add: route_unique_pending)

lemma run_statuses_valid: "statuses_valid s \<Longrightarrow> statuses_valid (run s rs)"
  by (induction rs arbitrary: s) (simp_all add: route_statuses_valid)

lemma run_wf_db: "wf_db s \<Longrightarrow> wf_db (run s rs)"
  by (induction rs arbitrary: s) (simp_all add: route_wf_db)

lemma run_unique_offered: "unique_offered s \<Longrightarrow> unique_offered (run s rs)"
  by (induction rs arbitrary: s) (simp_all add: route_unique_offered)

text \<open>
  Claim C4, as amended. When requests are served one at a time: if no two pending
  requests share their ordered pair of requester and recipient, the same holds after any
  run of requests. While a pending request from a requester to a recipient is stored, a
  creation call for that pair never succeeds and changes nothing, whatever skills it
  names: it fails with the failure of the first check of the handler that does not
  pass, which is \<open>DuplicatePendingRequest\<close> when all earlier checks pass.
\<close>

theorem pending_pair_unique:
  "(unique_pending s \<longrightarrow> unique_pending (run s rs))
   \<and> ((u, ObjectId r) \<in> set (pending_pairs s) \<longrightarrow>
        create_swap s u r a b m =
          (Inl (if \<not> isMongoId r then ValidationError
                else if toString u = r then SelfSwap
                else if \<forall>x\<in>set (User s). u_id x \<noteq> ObjectId r then RecipientNotFound
                else if \<exists>x. User_findById s (ObjectId r) = Some x \<and> is_banned x
                  then RecipientBanned
                else if \<forall>x\<in>set (UserSkillOffered s). \<not> (o_user_id x = u \<and> o_skill_id x = a)
                  then OfferedSkillNotOwned
                else if \<forall>x\<in>set (UserSkillOffered s).
                          \<not> (o_user_id x = ObjectId r \<and> o_skill_id x = b)
                  then RequestedSkillNotOffered
                else DuplicatePendingRequest), s))"
proof (intro conjI impI)
  assume "unique_pending s"
  then show "unique_pending (run s rs)" by (rule run_unique_pending)
next
  assume "(u, ObjectId r) \<in> set (pending_pairs s)"
  then show "create_swap s u r a b m =
          (Inl (if \<not> isMongoId r then ValidationError
                else if toString u = r then SelfSwap
                else if \<forall>x\<in>set (User s). u_id x \<noteq> ObjectId r then RecipientNotFound
                else if \<exists>x. User_findById s (ObjectId r) = Some x \<and> is_banned x
                  then RecipientBanned
                else if \<forall>x\<in>set (UserSkillOffered s). \<not> (o_user_id x = u \<and> o_skill_id x = a)
                  then OfferedSkillNotOwned
                else if \<forall>x\<in>set (UserSkillOffered s).
                          \<not> (o_user_id x = ObjectId r \<and> o_skill_id x = b)
                  then RequestedSkillNotOffered
                else DuplicatePendingRequest), s)"
    unfolding create_swap_checks [of s u r a b m] pair_if by (simp only: if_True)
qed

theorem pending_pair_unique_witness:
  "unique_pending db_pending
   \<and> pending_pairs (run db_pending [CreateSwap 1 (toString 2) 11 12 None,
        CreateSwap 2 (toString 1) 12 11 None, CreateSwap 1 (toString 2) 11 12 (Some ''again'')])
       = [(1, 2), (2, 1)]
   \<and> unique_pending (run db_pending [CreateSwap 1 (toString 2) 11 12 None,
        CreateSwap 2 (toString 1) 12 11 None, CreateSwap 1 (toString 2) 11 12 (Some ''again'')])
   \<and> (1, ObjectId (toString 2)) \<in> set (pending_pairs db_pending)
   \<and> create_swap db_pending 1 (toString 2) 11 12 None
       = (Inl DuplicatePendingRequest, db_pending)
   \<and> create_swap db_pending 1 (toString 2) 12 12 None
       = (Inl OfferedSkillNotOwned, db_pending)"
proof -
  let ?rs = "[CreateSwap 1 (toString 2) 11 12 None, CreateSwap 2 (toString 1) 12 11 None,
        CreateSwap 1 (toString 2) 11 12 (Some ''again'')]"
  note d = pending_pairs_def example_defs store_defs id_text_facts
  have u: "unique_pending db_pending"
    by (simp add: unique_pending_def pending_pairs_def example_defs)
  have p: "(1, ObjectId (toString 2)) \<in> set (pending_pairs db_pending)"
    by (simp add: d)
  have r: "pending_pairs (run db_pending ?rs) = [(1, 2), (2, 1)]"
    by (simp add: d create_swap_def Let_def)
  from pending_pair_unique [of db_pending ?rs] u
  have a: "unique_pending (run db_pending ?rs)" by blast
  from pending_pair_unique [of db_pending "[]" 1 "toString 2" 11 12 None] p
  have b: "create_swap db_pending 1 (toString 2) 11 12 None
      = (Inl DuplicatePendingRequest, db_pending)"
    by (simp add: d)
  from pending_pair_unique [of db_pending "[]" 1 "toString 2" 12 12 None] p
  have c: "create_swap db_pending 1 (toString 2) 12 12 None
      = (Inl OfferedSkillNotOwned, db_pending)"
    by (simp add: d)
  from u r a p b c show ?thesis by (intro conjI)
qed

text \<open>
  Claim C4 as stated fails in two ways. Alice's request to Bob is pending, and her second
  request to Bob, which names a skill she does not offer, fails with
  \<open>OfferedSkillNotOwned\<close>, not with \<open>DuplicatePendingRequest\<close>. And when two creation
  requests of Alice to Bob overlap, both look for a pending request before either
  creates one, both find none, and both are stored: two pending requests for one pair.
\<close>

theorem pending_pair_unique_counterexample:
  "(1, ObjectId (toString 2)) \<in> set (pending_pairs db_pending)
   \<and> create_swap db_pending 1 (toString 2) 12 12 None = (Inl OfferedSkillNotOwned, db_pending)
   \<and> route db_pending (CreateSwap 1 (toString 2) 12 12 None)
       = (Inl OfferedSkillNotOwned, db_pending)
   \<and> create_swap_overlapped db0 db0 db0 db0 db0 1 (toString 2) 11 12 None
       = (Inr 30, db_pending)
   \<and> create_swap_overlapped db0 db0 db0 db0 db_pending 1 (toString 2) 11 12 None
       = (Inr 31, db0\<lparr>SwapRequest := [request_ab, request_ab\<lparr>sw_id := 31\<rparr>], next_id := 32\<rparr>)
   \<and> pending_pairs (db0\<lparr>SwapRequest := [request_ab, request_ab\<lparr>sw_id := 31\<rparr>],
         next_id := 32\<rparr>) = [(1, 2), (1, 2)]
   \<and> \<not> unique_pending (db0\<lparr>SwapRequest := [request_ab, request_ab\<lparr>sw_id := 31\<rparr>],
         next_id := 32\<rparr>)"
proof -
  let ?s2 = "db0\<lparr>SwapRequest := [request_ab, request_ab\<lparr>sw_id := 31\<rparr>], next_id := 32\<rparr>"
  note d = example_defs store_defs id_text_facts
  have 1: "(1, ObjectId (toString 2)) \<in> set (pending_pairs db_pending)"
    by (simp add: pending_pairs_def d)
  have 2: "create_swap db_pending 1 (toString 2) 12 12 None
      = (Inl OfferedSkillNotOwned, db_pending)"
    by (simp add: create_swap_def d)
  have g: "checkNotBanned db_pending 1 = None" by (simp add: d)
  have 3: "route db_pending (CreateSwap 1 (toString 2) 12 12 None)
       = (Inl OfferedSkillNotOwned, db_pending)"
    using 2 g by (simp add: guarded_def reply_with_def)
  have 4: "create_swap_overlapped db0 db0 db0 db0 db0 1 (toString 2) 11 12 None
       = (Inr 30, db_pending)"
    by (simp add: create_swap_overlapped_def d Let_def)
  have 5: "create_swap_overlapped db0 db0 db0 db0 db_pending 1 (toString 2) 11 12 None
       = (Inr 31, ?s2)"
    by (simp add: create_swap_overlapped_def d Let_def)
  have 6: "pending_pairs ?s2 = [(1, 2), (1, 2)]"
    by (simp add: pending_pairs_def example_defs)
  then have 7: "\<not> unique_pending ?s2" by (simp add: unique_pending_def)
  from 1 2 3 4 5 6 7 show ?thesis by (intro conjI)
qed

section \<open>Cancelling\<close>

text \<open>
  Claim C1: the code departs from the claim. Alice's request to Bob is pending and Alice,
  its requester, cancels it through \<^verbatim>\<open>PUT /swaps/:swapId/cancel\<close>. The handler passes
  both guards and assigns \<^verbatim>\<open>'cancelled'\<close>, a value the schema's list does not hold, so
  the save is refused: the answer is 500 and the stored request is still pending.
\<close>

theorem cancel_swap_pending_server_error:
  "SwapRequest_findById db_pending 30 = Some request_ab
   \<and> requester_id request_ab = 1 \<and> status request_ab = Pending
   \<and> cancel_swap db_pending 1 30 = (Inl ServerError, db_pending)
   \<and> route db_pending (CancelSwap 1 30) = (Inl ServerError, db_pending)
   \<and> http_status ServerError = 500"
  by (simp add: example_defs store_defs cancel_swap_def)

text \<open>
  The guards of both cancel handlers are the claim's, and the deleting handler succeeds
  where the saving one cannot.
\<close>

lemma cancel_guards:
  assumes "SwapRequest_findById s i = Some w"
  shows "requester_id w \<noteq> u \<Longrightarrow> cancel_swap s u i = (Inl Forbidden, s)"
    and "requester_id w \<noteq> u \<Longrightarrow> delete_swap s u i = (Inl Forbidden, s)"
    and "requester_id w = u \<Longrightarrow> status w \<noteq> Pending \<Longrightarrow> cancel_swap s u i = (Inl InvalidTransition, s)"
    and "requester_id w = u \<Longrightarrow> status w \<noteq> Pending \<Longrightarrow> delete_swap s u i = (Inl InvalidTransition, s)"
    and "requester_id w = u \<Longrightarrow> status w = Pending \<Longrightarrow> cancel_swap s u i = (Inl ServerError, s)"
    and "requester_id w = u \<Longrightarrow> status w = Pending \<Longrightarrow>
           delete_swap s u i =
             (Inr (), s\<lparr>SwapRequest := delete_first (\<lambda>x. sw_id x = i) (SwapRequest s)\<rparr>)"
  using assms
  by (simp_all add: cancel_swap_def delete_swap_def store_defs)

section \<open>Rating\<close>

text \<open>
  Claim C5: the code departs from the claim. Bob has accepted Alice's request and Alice
  rates the swap with 5 through the first swap router. Its module never binds
  \<^verbatim>\<open>Rating\<close>, so the submission of a participant on an accepted swap ends in the
  handler's \<^verbatim>\<open>catch\<close>: the answer is 500 and no rating is stored.
\<close>

theorem rate_swap_first_submission_server_error:
  "SwapRequest_findById db_accepted 30 = Some (request_ab\<lparr>status := Accepted\<rparr>)
   \<and> requester_id request_ab = 1
   \<and> Rating db_accepted = []
   \<and> rate_swap db_accepted 1 30 5 None = (Inl ServerError, db_accepted)
   \<and> route db_accepted (RateSwap 1 30 5 None) = (Inl ServerError, db_accepted)"
  by (simp add: example_defs store_defs rate_swap_def rate_swap_in_def)

text \<open>
  The second swap router, whose module requires the Rating model, does what the claim
  says: the first submission of a participant on an accepted swap stores one rating, and
  a second submission of the same rater is refused with \<open>DuplicateRating\<close> and stores
  none.
\<close>

theorem rate_swap_models_once:
  assumes "SwapRequest_findById s i = Some w" and "status w = Accepted"
    and "requester_id w = u \<or> recipient_id w = u"
    and "1 \<le> n" and "n \<le> 5"
    and "Rating_findOne s i u = None"
  shows "\<exists>s'. rate_swap_models s u i n f = (Inr (), s')
           \<and> length (filter (\<lambda>r. swap_id r = i \<and> rater_id r = u) (Rating s')) = 1
           \<and> rate_swap_models s' u i n' f' = (Inl (if 1 \<le> n' \<and> n' \<le> 5 then DuplicateRating else ValidationError), s')"
proof -
  let ?r = "\<lparr>r_id = next_id s, swap_id = i, rater_id = u,
             rated_user_id = (if requester_id w = u then recipient_id w else requester_id w),
             rating = n, feedback = f\<rparr>"
  let ?s' = "s\<lparr>Rating := Rating s @ [?r], next_id := Suc (next_id s)\<rparr>"
  from assms(6) have none: "filter (\<lambda>r. swap_id r = i \<and> rater_id r = u) (Rating s) = []"
    by (auto simp: Rating_findOne_def find_None_ball filter_empty_conv)
  from assms have 1: "rate_swap_models s u i n f = (Inr (), ?s')"
    by (auto simp: rate_swap_models_def rate_swap_in_def Rating_create_def rating_valid_def
        Let_def)
  have 2: "length (filter (\<lambda>r. swap_id r = i \<and> rater_id r = u) (Rating ?s')) = 1"
    using none by simp
  have "Rating_findOne ?s' i u \<noteq> None"
    by (auto simp: Rating_findOne_def find_None_ball)
  moreover have "SwapRequest_findById ?s' i = Some w"
    using assms(1) by (simp add: SwapRequest_findById_def)
  ultimately have 3: "rate_swap_models ?s' u i n' f' =
      (Inl (if 1 \<le> n' \<and> n' \<le> 5 then DuplicateRating else ValidationError), ?s')"
    using assms(2,3) by (auto simp: rate_swap_models_def rate_swap_in_def)
  from 1 2 3 show ?thesis by blast
qed

theorem rate_swap_models_once_witness:
  "SwapRequest_findById db_accepted 30 = Some (request_ab\<lparr>status := Accepted\<rparr>)
   \<and> Rating_findOne db_accepted 30 1 = None
   \<and> (\<exists>s'. rate_swap_models db_accepted 1 30 5 None = (Inr (), s')
         \<and> length (filter (\<lambda>r. swap_id r = 30 \<and> rater_id r = 1) (Rating s')) = 1
         \<and> rate_swap_models s' 1 30 5 None = (Inl DuplicateRating, s'))"
proof -
  let ?w = "request_ab\<lparr>status := Accepted\<rparr>"
  have f: "SwapRequest_findById db_accepted 30 = Some ?w"
    and a: "status ?w = Accepted" and q: "requester_id ?w = 1 \<or> recipient_id ?w = 1"
    and n: "Rating_findOne db_accepted 30 1 = None"
    by (simp_all add: example_defs store_defs)
  from rate_swap_models_once [OF f a q _ _ n, of 5 None 5 None]
  have "\<exists>s'. rate_swap_models db_accepted 1 30 5 None = (Inr (), s')
         \<and> length (filter (\<lambda>r. swap_id r = 30 \<and> rater_id r = 1) (Rating s')) = 1
         \<and> rate_swap_models s' 1 30 5 None = (Inl DuplicateRating, s')"
    by simp
  with f n show ?thesis by (intro conjI)
qed

text \<open>
  Claim C6, as amended. A score outside 1 to 5 is a \<open>ValidationError\<close>. For a score
  within 1 to 5 on a stored swap request: when its status is not accepted the answer is
  \<open>InvalidState\<close>, whoever the caller is; when it is accepted and the caller is neither
  its requester nor its recipient the answer is \<open>Forbidden\<close>; and when a submission
  succeeds, exactly one rating is stored, by the caller, for this swap, with the
  submitted score, which lies within 1 to 5, and the rated user is the other participant.
  The statement holds for both swap routers.
\<close>

theorem rate_swap_checks:
  "(\<not> (1 \<le> n \<and> n \<le> 5) \<longrightarrow> rate_swap_in bound s u i n f = (Inl ValidationError, s))
   \<and> (1 \<le> n \<and> n \<le> 5 \<and> SwapRequest_findById s i = Some w \<longrightarrow>
        (status w \<noteq> Accepted \<longrightarrow> rate_swap_in bound s u i n f = (Inl InvalidState, s))
      \<and> (status w = Accepted \<and> requester_id w \<noteq> u \<and> recipient_id w \<noteq> u \<longrightarrow>
           rate_swap_in bound s u i n f = (Inl Forbidden, s)))
   \<and> (SwapRequest_findById s i = Some w \<and> rate_swap_in bound s u i n f = (Inr (), s') \<longrightarrow>
        1 \<le> n \<and> n \<le> 5 \<and> status w = Accepted
      \<and> (requester_id w = u \<or> recipient_id w = u)
      \<and> Rating s' = Rating s @
           [\<lparr>r_id = next_id s, swap_id = i, rater_id = u,
             rated_user_id = (if requester_id w = u then recipient_id w else requester_id w),
             rating = n, feedback = f\<rparr>])"
  by (auto simp: rate_swap_in_def Rating_create_def Let_def split: if_splits option.splits)

theorem rate_swap_checks_witness:
  "rate_swap_in True db_accepted 1 30 7 None = (Inl ValidationError, db_accepted)
   \<and> SwapRequest_findById db_pending 30 = Some request_ab
   \<and> rate_swap_in True db_pending 1 30 5 None = (Inl InvalidState, db_pending)
   \<and> SwapRequest_findById db_accepted 30 = Some (request_ab\<lparr>status := Accepted\<rparr>)
   \<and> rate_swap_in True db_accepted 3 30 5 None = (Inl Forbidden, db_accepted)
   \<and> rate_swap_in True db_accepted 2 30 4 (Some ''thanks'')
       = (Inr (), db_accepted\<lparr>Rating := [\<lparr>r_id = 31, swap_id = 30, rater_id = 2,
             rated_user_id = 1, rating = 4, feedback = Some ''thanks''\<rparr>], next_id := 32\<rparr>)
   \<and> Rating (snd (rate_swap_in True db_accepted 2 30 4 (Some ''thanks'')))
       = Rating db_accepted @ [\<lparr>r_id = next_id db_accepted, swap_id = 30, rater_id = 2,
             rated_user_id = 1, rating = 4, feedback = Some ''thanks''\<rparr>]"
proof -
  let ?w = "request_ab\<lparr>status := Accepted\<rparr>"
  let ?s' = "db_accepted\<lparr>Rating := [\<lparr>r_id = 31, swap_id = 30, rater_id = 2,
             rated_user_id = 1, rating = 4, feedback = Some ''thanks''\<rparr>], next_id := 32\<rparr>"
  note t = rate_swap_checks
  have f1: "SwapRequest_findById db_pending 30 = Some request_ab"
    and f2: "SwapRequest_findById db_accepted 30 = Some ?w"
    by (simp_all add: example_defs store_defs)
  have a: "rate_swap_in True db_accepted 1 30 7 None = (Inl ValidationError, db_accepted)"
    using t [of 7 True db_accepted 1 30 None] by simp
  have b: "rate_swap_in True db_pending 1 30 5 None = (Inl InvalidState, db_pending)"
    using t [of 5 True db_pending 1 30 None request_ab] f1 by (simp add: example_defs)
  have c: "rate_swap_in True db_accepted 3 30 5 None = (Inl Forbidden, db_accepted)"
    using t [of 5 True db_accepted 3 30 None ?w] f2 by (simp add: example_defs)
  have d: "rate_swap_in True db_accepted 2 30 4 (Some ''thanks'') = (Inr (), ?s')"
    by (simp add: example_defs store_defs rate_swap_in_def)
  have e: "Rating (snd (rate_swap_in True db_accepted 2 30 4 (Some ''thanks'')))
       = Rating db_accepted @ [\<lparr>r_id = next_id db_accepted, swap_id = 30, rater_id = 2,
             rated_user_id = 1, rating = 4, feedback = Some ''thanks''\<rparr>]"
    using t [of 4 True db_accepted 2 30 "Some ''thanks''" ?w ?s'] f2 d
    by (simp add: example_defs)
  from a f1 b f2 c d e show ?thesis by blast
qed

text \<open>
  Claim C6 as stated fails: Carol is neither requester nor recipient of Alice's request
  to Bob, which is still pending; her rating is answered with \<open>InvalidState\<close>, not with
  \<open>Forbidden\<close>, by both swap routers.
\<close>

theorem rate_swap_checks_counterexample:
  "SwapRequest_findById db_pending 30 = Some request_ab
   \<and> requester_id request_ab \<noteq> 3 \<and> recipient_id request_ab \<noteq> 3
   \<and> rate_swap db_pending 3 30 5 None = (Inl InvalidState, db_pending)
   \<and> rate_swap_models db_pending 3 30 5 None = (Inl InvalidState, db_pending)
   \<and> route db_pending (RateSwap 3 30 5 None) = (Inl InvalidState, db_pending)
   \<and> route db_pending (RateSwapModels 3 30 5 None) = (Inl InvalidState, db_pending)"
  by (simp add: example_defs store_defs rate_swap_def rate_swap_models_def rate_swap_in_def)

section \<open>Admin statistics\<close>

text \<open>
  Claim C7: the code departs from the claim. Whatever the store holds, the statistics
  handler answers 500: its module never binds \<^verbatim>\<open>Skill\<close>, which the handler evaluates
  before it reaches the ratings.
\<close>

theorem get_stats_database_error:
  "get_stats s = Inl DatabaseError \<and> http_status DatabaseError = 500"
  by (simp add: get_stats_def get_stats_in_def)

text \<open>
  With \<^verbatim>\<open>Skill\<close> bound the handler would return the counts, and 0 as the average of no
  ratings.
\<close>

lemma get_stats_in_bound:
  "get_stats_in True s = Inr (stats_of s)"
  "Rating s = [] \<Longrightarrow> averageRating (stats_of s) = 0"
  "Rating s \<noteq> [] \<Longrightarrow>
     averageRating (stats_of s) = of_int (sum_list (map rating (Rating s))) / of_nat (length (Rating s))"
  by (simp_all add: get_stats_in_def stats_of_def ratingStats_def)

section \<open>Browsing\<close>

lemma those_map_Some:
  "those (map f xs) = Some ys \<Longrightarrow> y \<in> set ys \<Longrightarrow> \<exists>x\<in>set xs. f x = Some y"
proof (induction xs arbitrary: ys)
  case Nil
  then show ?case by simp
next
  case (Cons x xs)
  then show ?case by (auto split: option.splits)
qed

lemma paginate_subset: "paginate k n xs = Some ys \<Longrightarrow> set ys \<subseteq> set xs"
  by (auto simp: paginate_def split: if_splits dest: in_set_takeD in_set_dropD)

lemma browse_query_public: "browse_query regex search location = Some q \<Longrightarrow> q u \<Longrightarrow> is_public u"
  by (auto simp: browse_query_def split: option.splits if_splits)

lemma with_skills_public: "with_skills s u = Some b \<Longrightarrow> b_is_public b = is_public u \<and> b_id b = u_id u"
  by (auto simp: with_skills_def split: option.splits)

text \<open>
  Claim C8. Every user in the result of a browse query is the view of a stored user
  whose \<^verbatim>\<open>is_public\<close> is true, and carries that flag, whatever search, location and
  skill filters, page and page size the query names.
\<close>

theorem browse_only_public:
  assumes "browse regex s page limit search skill location = Inr out"
  shows "\<forall>b\<in>set (br_users out).
           b_is_public b \<and> (\<exists>u\<in>set (User s). is_public u \<and> with_skills s u = Some b)"
proof
  fix b assume b: "b \<in> set (br_users out)"
  from assms obtain query where q: "browse_query regex search location = Some query"
    by (cases "browse_query regex search location") (simp_all add: browse_def)
  from assms q obtain users where
    p: "paginate ((page - 1) * limit) limit (filter query (User s)) = Some users"
    by (cases "paginate ((page - 1) * limit) limit (filter query (User s))")
      (simp_all add: browse_def)
  define chosen where "chosen = (if skill = [] then Some users
      else map_option (\<lambda>m. filter (\<lambda>u. u_id u \<in> set (matchingUserIds s m)) users)
             (regex skill))"
  from assms q p obtain filteredUsers where c: "chosen = Some filteredUsers"
    unfolding chosen_def
    by (cases "if skill = [] then Some users
      else map_option (\<lambda>m. filter (\<lambda>u. u_id u \<in> set (matchingUserIds s m)) users)
             (regex skill)") (simp_all add: browse_def)
  then have f: "set filteredUsers \<subseteq> set users"
    by (auto simp: chosen_def split: if_splits)
  from assms q p c have w: "those (map (with_skills s) filteredUsers) = Some (br_users out)"
    unfolding chosen_def
    by (cases "those (map (with_skills s) filteredUsers)") (auto simp: browse_def)
  from those_map_Some [OF w b] obtain u where u: "u \<in> set filteredUsers" "with_skills s u = Some b"
    by blast
  from u(1) f paginate_subset [OF p] have "u \<in> set (User s)" "query u" by auto
  with q have "is_public u" by (auto dest: browse_query_public)
  with u(2) \<open>u \<in> set (User s)\<close> show
    "b_is_public b \<and> (\<exists>u\<in>set (User s). is_public u \<and> with_skills s u = Some b)"
    by (auto dest: with_skills_public)
qed


theorem browse_only_public_witness:
  "carol \<in> set (User db0) \<and> \<not> is_public carol
   \<and> (\<exists>out. browse prefix_regex db0 1 10 [] [] [] = Inr out
         \<and> map b_id (br_users out) = [1, 2] \<and> list_all b_is_public (br_users out))
   \<and> (\<exists>out. browse prefix_regex db0 1 10 [] ''Py'' [] = Inr out
         \<and> map b_id (br_users out) = [1] \<and> list_all b_is_public (br_users out))"
proof -
  note d = browse_def browse_query_def paginate_def with_skills_def offered_views_def
    wanted_views_def matchingUserIds_def prefix_regex_def example_defs store_defs
  let ?r1 = "browse prefix_regex db0 1 10 [] [] []"
  let ?r2 = "browse prefix_regex db0 1 10 [] ''Py'' []"
  have c: "carol \<in> set (User db0)" "\<not> is_public carol"
    by (simp_all add: example_defs)
  have e1: "?r1 = Inr (projr ?r1)" by (simp add: d)
  have e2: "?r2 = Inr (projr ?r2)" by (simp add: d)
  have i1: "map b_id (br_users (projr ?r1)) = [1, 2]" by (simp add: d)
  have i2: "map b_id (br_users (projr ?r2)) = [1]" by (simp add: d)
  from browse_only_public [OF e1] have p1: "list_all b_is_public (br_users (projr ?r1))"
    unfolding list_all_iff by blast
  from browse_only_public [OF e2] have p2: "list_all b_is_public (br_users (projr ?r2))"
    unfolding list_all_iff by blast
  have x1: "\<exists>out. ?r1 = Inr out
         \<and> map b_id (br_users out) = [1, 2] \<and> list_all b_is_public (br_users out)"
    by (rule exI [of _ "projr ?r1"]) (intro conjI e1 i1 p1)
  have x2: "\<exists>out. ?r2 = Inr out
         \<and> map b_id (br_users out) = [1] \<and> list_all b_is_public (br_users out)"
    by (rule exI [of _ "projr ?r2"]) (intro conjI e2 i2 p2)
  from c x1 x2 show ?thesis by (intro conjI)
qed

section \<open>Offered skills\<close>

lemma delete_first_pair_gone:
  "find P xs = Some x \<Longrightarrow> distinct (map g xs) \<Longrightarrow> g x \<notin> g ` set (delete_first P xs)"
proof (induction xs)
  case Nil
  then show ?case by simp
next
  case (Cons a xs)
  show ?case
  proof (cases "P a")
    case True
    with Cons.prems show ?thesis by simp
  next
    case False
    with Cons.prems have f: "find P xs = Some x" by simp
    then have "x \<in> set xs" by (auto simp: find_Some_iff)
    with Cons.prems(2) have "g x \<noteq> g a" by (auto simp: image_iff)
    moreover from Cons.IH [OF f] Cons.prems(2) have "g x \<notin> g ` set (delete_first P xs)"
      by simp
    ultimately show ?thesis using False by simp
  qed
qed

lemma find_unique_id:
  "distinct (map f xs) \<Longrightarrow> x \<in> set xs \<Longrightarrow> Q x \<Longrightarrow> find (\<lambda>a. f a = f x \<and> Q a) xs = Some x"
proof (induction xs)
  case Nil
  then show ?case by simp
next
  case (Cons a xs)
  show ?case
  proof (cases "a = x")
    case True
    with Cons.prems show ?thesis by simp
  next
    case False
    with Cons.prems have x: "x \<in> set xs" by simp
    with Cons.prems(1) have "f a \<noteq> f x" by (auto simp: image_iff)
    with Cons x show ?thesis by simp
  qed
qed

lemma offered_pairs_mem:
  "((u, k) \<in> set (offered_pairs s)) =
     (\<exists>a\<in>set (UserSkillOffered s). o_user_id a = u \<and> o_skill_id a = k)"
  unfolding offered_pairs_def by force

lemma add_offered_new:
  assumes "Skill_findById s k \<noteq> None" and "(u, k) \<notin> set (offered_pairs s)"
  shows "add_offered s u k d l =
    (Inr (), s\<lparr>UserSkillOffered := UserSkillOffered s @
                  [\<lparr>o_id = next_id s, o_user_id = u, o_skill_id = k,
                    o_description = (case d of None \<Rightarrow> [] | Some x \<Rightarrow> x),
                    proficiency_level = (case l of None \<Rightarrow> Intermediate | Some x \<Rightarrow> x)\<rparr>],
                next_id := Suc (next_id s)\<rparr>)"
proof -
  from assms(2) have "UserSkillOffered_findOne s u k = None"
    by (simp add: UserSkillOffered_findOne_def find_None_ball offered_pairs_mem)
  with assms(1) show ?thesis by (cases "Skill_findById s k") (simp_all add: add_offered_def)
qed

lemma add_offered_duplicate:
  assumes "Skill_findById s k \<noteq> None" and "(u, k) \<in> set (offered_pairs s)"
  shows "add_offered s u k d l = (Inl DuplicateAssociation, s)"
proof -
  from assms(2) have "UserSkillOffered_findOne s u k \<noteq> None"
    by (simp add: UserSkillOffered_findOne_def find_None_ball offered_pairs_mem)
  with assms(1) show ?thesis by (cases "Skill_findById s k") (simp_all add: add_offered_def)
qed

lemma remove_offered_then_absent:
  assumes "wf_db s" and "unique_offered s" and "x \<in> set (UserSkillOffered s)"
  shows "remove_offered s (o_user_id x) (o_id x) =
      (Inr (), s\<lparr>UserSkillOffered :=
         delete_first (\<lambda>a. o_id a = o_id x \<and> o_user_id a = o_user_id x) (UserSkillOffered s)\<rparr>)"
    and "(o_user_id x, o_skill_id x) \<notin> set (offered_pairs
           (s\<lparr>UserSkillOffered :=
         delete_first (\<lambda>a. o_id a = o_id x \<and> o_user_id a = o_user_id x) (UserSkillOffered s)\<rparr>))"
proof -
  let ?P = "\<lambda>a. o_id a = o_id x \<and> o_user_id a = o_user_id x"
  from assms(1) have d: "distinct (map o_id (UserSkillOffered s))" by (simp add: wf_db_def)
  from find_unique_id [OF d assms(3), of "\<lambda>a. o_user_id a = o_user_id x"]
  have fx: "find ?P (UserSkillOffered s) = Some x" by simp
  then show "remove_offered s (o_user_id x) (o_id x) =
      (Inr (), s\<lparr>UserSkillOffered := delete_first ?P (UserSkillOffered s)\<rparr>)"
    by (simp add: remove_offered_def)
  from assms(2) have "distinct (map (\<lambda>a. (o_user_id a, o_skill_id a)) (UserSkillOffered s))"
    by (simp add: unique_offered_def offered_pairs_def)
  from delete_first_pair_gone [OF fx this]
  show "(o_user_id x, o_skill_id x) \<notin> set (offered_pairs
           (s\<lparr>UserSkillOffered := delete_first ?P (UserSkillOffered s)\<rparr>))"
    by (simp add: offered_pairs_def)
qed


text \<open>
  Claim C9. For a user and a skill identifier: adding an offered association fails with
  \<open>SkillNotFound\<close> when no skill has the identifier; it fails with
  \<open>DuplicateAssociation\<close> (a conflict) when the skill exists and the user already lists
  it; it succeeds when the skill exists and the user does not list it yet, and a second
  call then meets the conflict. After the user has removed a listed association, adding
  it again succeeds.
\<close>

theorem offered_association_contract:
  "(Skill_findById s k = None \<longrightarrow> add_offered s u k d l = (Inl SkillNotFound, s))
   \<and> (Skill_findById s k \<noteq> None \<and> (u, k) \<in> set (offered_pairs s) \<longrightarrow>
        add_offered s u k d l = (Inl DuplicateAssociation, s))
   \<and> (Skill_findById s k \<noteq> None \<and> (u, k) \<notin> set (offered_pairs s) \<longrightarrow>
        (\<exists>s'. add_offered s u k d l = (Inr (), s') \<and> (u, k) \<in> set (offered_pairs s')
           \<and> add_offered s' u k d' l' = (Inl DuplicateAssociation, s')))
   \<and> (wf_db s \<and> unique_offered s \<and> Skill_findById s k \<noteq> None
        \<and> x \<in> set (UserSkillOffered s) \<and> o_user_id x = u \<and> o_skill_id x = k \<longrightarrow>
        (\<exists>s1 s2. remove_offered s u (o_id x) = (Inr (), s1)
           \<and> (u, k) \<notin> set (offered_pairs s1)
           \<and> add_offered s1 u k d l = (Inr (), s2) \<and> (u, k) \<in> set (offered_pairs s2)))"
proof (intro conjI impI)
  assume "Skill_findById s k = None"
  then show "add_offered s u k d l = (Inl SkillNotFound, s)"
    by (simp add: add_offered_def)
next
  assume "Skill_findById s k \<noteq> None \<and> (u, k) \<in> set (offered_pairs s)"
  then show "add_offered s u k d l = (Inl DuplicateAssociation, s)"
    by (simp add: add_offered_duplicate)
next
  assume a: "Skill_findById s k \<noteq> None \<and> (u, k) \<notin> set (offered_pairs s)"
  let ?s' = "s\<lparr>UserSkillOffered := UserSkillOffered s @
                  [\<lparr>o_id = next_id s, o_user_id = u, o_skill_id = k,
                    o_description = (case d of None \<Rightarrow> [] | Some x \<Rightarrow> x),
                    proficiency_level = (case l of None \<Rightarrow> Intermediate | Some x \<Rightarrow> x)\<rparr>],
                next_id := Suc (next_id s)\<rparr>"
  from a have 1: "add_offered s u k d l = (Inr (), ?s')" by (simp add: add_offered_new)
  have 2: "(u, k) \<in> set (offered_pairs ?s')" by (simp add: offered_pairs_def)
  from a have "Skill_findById ?s' k \<noteq> None" by (simp add: Skill_findById_def)
  from add_offered_duplicate [OF this 2]
  have 3: "add_offered ?s' u k d' l' = (Inl DuplicateAssociation, ?s')" .
  from 1 2 3 show "\<exists>s'. add_offered s u k d l = (Inr (), s') \<and> (u, k) \<in> set (offered_pairs s')
           \<and> add_offered s' u k d' l' = (Inl DuplicateAssociation, s')"
    by blast
next
  assume a: "wf_db s \<and> unique_offered s \<and> Skill_findById s k \<noteq> None
        \<and> x \<in> set (UserSkillOffered s) \<and> o_user_id x = u \<and> o_skill_id x = k"
  let ?s1 = "s\<lparr>UserSkillOffered :=
         delete_first (\<lambda>a. o_id a = o_id x \<and> o_user_id a = o_user_id x) (UserSkillOffered s)\<rparr>"
  let ?s2 = "?s1\<lparr>UserSkillOffered := UserSkillOffered ?s1 @
                  [\<lparr>o_id = next_id ?s1, o_user_id = u, o_skill_id = k,
                    o_description = (case d of None \<Rightarrow> [] | Some x \<Rightarrow> x),
                    proficiency_level = (case l of None \<Rightarrow> Intermediate | Some x \<Rightarrow> x)\<rparr>],
                next_id := Suc (next_id ?s1)\<rparr>"
  from a have w: "wf_db s" "unique_offered s" "x \<in> set (UserSkillOffered s)"
    and ux: "o_user_id x = u" "o_skill_id x = k" by simp_all
  from remove_offered_then_absent [OF w] ux
  have 1: "remove_offered s u (o_id x) = (Inr (), ?s1)"
    and 2: "(u, k) \<notin> set (offered_pairs ?s1)" by simp_all
  from a have "Skill_findById ?s1 k \<noteq> None" by (simp add: Skill_findById_def)
  from add_offered_new [OF this 2] have 3: "add_offered ?s1 u k d l = (Inr (), ?s2)" .
  have 4: "(u, k) \<in> set (offered_pairs ?s2)" by (simp add: offered_pairs_def)
  from 1 2 3 4 show "\<exists>s1 s2. remove_offered s u (o_id x) = (Inr (), s1)
           \<and> (u, k) \<notin> set (offered_pairs s1)
           \<and> add_offered s1 u k d l = (Inr (), s2) \<and> (u, k) \<in> set (offered_pairs s2)"
    by blast
qed

theorem offered_association_contract_witness:
  "Skill_findById db0 99 = None
   \<and> add_offered db0 1 99 None None = (Inl SkillNotFound, db0)
   \<and> Skill_findById db0 11 \<noteq> None \<and> (1, 11) \<in> set (offered_pairs db0)
   \<and> add_offered db0 1 11 None None = (Inl DuplicateAssociation, db0)
   \<and> Skill_findById db0 12 \<noteq> None \<and> (1, 12) \<notin> set (offered_pairs db0)
   \<and> (\<exists>s'. add_offered db0 1 12 None None = (Inr (), s') \<and> (1, 12) \<in> set (offered_pairs s')
         \<and> add_offered s' 1 12 None (Some Advanced) = (Inl DuplicateAssociation, s'))
   \<and> wf_db db0 \<and> unique_offered db0
   \<and> (\<exists>s1 s2. remove_offered db0 1 21 = (Inr (), s1) \<and> (1, 11) \<notin> set (offered_pairs s1)
         \<and> add_offered s1 1 11 None None = (Inr (), s2) \<and> (1, 11) \<in> set (offered_pairs s2))"
proof -
  let ?x = "\<lparr>o_id = 21, o_user_id = 1, o_skill_id = 11, o_description = [],
               proficiency_level = Advanced\<rparr>"
  note t1 = offered_association_contract [of db0 99 1 None None]
  note t2 = offered_association_contract [of db0 11 1 None None None None ?x]
  note t3 = offered_association_contract [of db0 12 1 None None None "Some Advanced"]
  have a: "Skill_findById db0 99 = None" "Skill_findById db0 11 \<noteq> None"
    "Skill_findById db0 12 \<noteq> None"
    by (simp_all add: example_defs store_defs)
  have b: "(1, 11) \<in> set (offered_pairs db0)" "(1, 12) \<notin> set (offered_pairs db0)"
    by (simp_all add: offered_pairs_def example_defs)
  have c: "wf_db db0" "unique_offered db0"
    by (simp_all add: wf_db_def unique_offered_def offered_pairs_def example_defs)
  have x: "?x \<in> set (UserSkillOffered db0)" "o_user_id ?x = 1" "o_skill_id ?x = 11" "o_id ?x = 21"
    by (simp_all add: example_defs)
  from t1 a have 1: "add_offered db0 1 99 None None = (Inl SkillNotFound, db0)" by blast
  from t2 a b have 2: "add_offered db0 1 11 None None = (Inl DuplicateAssociation, db0)" by blast
  from t3 a b have 3: "\<exists>s'. add_offered db0 1 12 None None = (Inr (), s') \<and> (1, 12) \<in> set (offered_pairs s')
         \<and> add_offered s' 1 12 None (Some Advanced) = (Inl DuplicateAssociation, s')" by blast
  from t2 a c x(1,2,3) have "\<exists>s1 s2. remove_offered db0 1 (o_id ?x) = (Inr (), s1)
         \<and> (1, 11) \<notin> set (offered_pairs s1)
         \<and> add_offered s1 1 11 None None = (Inr (), s2) \<and> (1, 11) \<in> set (offered_pairs s2)"
    by blast
  with x(4) have 4: "\<exists>s1 s2. remove_offered db0 1 21 = (Inr (), s1)
         \<and> (1, 11) \<notin> set (offered_pairs s1)
         \<and> add_offered s1 1 11 None None = (Inr (), s2) \<and> (1, 11) \<in> set (offered_pairs s2)"
    by simp
  from a b c 1 2 3 4 show ?thesis by (intro conjI)
qed

section \<open>Stored statuses\<close>

text \<open>
  Claim C10. The schema's list of admissible statuses does not hold \<^verbatim>\<open>'cancelled'\<close>;
  if every stored swap request carries a status of that list, so does every stored swap
  request after any run of requests: each is pending, accepted or rejected, and none is
  cancelled.
\<close>

theorem stored_status_never_cancelled:
  "Cancelled \<notin> set swap_status_enum
   \<and> (statuses_valid s \<longrightarrow>
        statuses_valid (run s rs)
      \<and> list_all (\<lambda>w. status w = Pending \<or> status w = Accepted \<or> status w = Rejected)
          (SwapRequest (run s rs))
      \<and> list_all (\<lambda>w. status w \<noteq> Cancelled) (SwapRequest (run s rs)))"
proof (intro conjI impI)
  show "Cancelled \<notin> set swap_status_enum" by (simp add: swap_status_enum_def)
next
  assume "statuses_valid s"
  then show v: "statuses_valid (run s rs)" by (rule run_statuses_valid)
  then show "list_all (\<lambda>w. status w = Pending \<or> status w = Accepted \<or> status w = Rejected)
          (SwapRequest (run s rs))"
    by (auto simp: statuses_valid_def swap_valid_def swap_status_enum_def list_all_iff)
  from v show "list_all (\<lambda>w. status w \<noteq> Cancelled) (SwapRequest (run s rs))"
    by (auto simp: statuses_valid_def swap_valid_def swap_status_enum_def list_all_iff)
qed

theorem stored_status_never_cancelled_witness:
  "statuses_valid db_pending
   \<and> run db_pending [CancelSwap 1 30] = db_pending
   \<and> map status (SwapRequest (run db_pending [CancelSwap 1 30, RejectSwap 2 30])) = [Rejected]
   \<and> statuses_valid (run db_pending [CancelSwap 1 30, RejectSwap 2 30])
   \<and> list_all (\<lambda>w. status w \<noteq> Cancelled)
        (SwapRequest (run db_pending [CancelSwap 1 30, RejectSwap 2 30]))"
proof -
  let ?rs = "[CancelSwap 1 30, RejectSwap 2 30]"
  note d = example_defs store_defs cancel_swap_def reject_swap_def
  have v: "statuses_valid db_pending"
    by (simp add: statuses_valid_def example_defs store_defs)
  have r1: "run db_pending [CancelSwap 1 30] = db_pending" by (simp add: d)
  have r2: "map status (SwapRequest (run db_pending ?rs)) = [Rejected]" by (simp add: d)
  from stored_status_never_cancelled [of db_pending ?rs] v
  have "statuses_valid (run db_pending ?rs)"
    "list_all (\<lambda>w. status w \<noteq> Cancelled) (SwapRequest (run db_pending ?rs))"
    by blast+
  with v r1 r2 show ?thesis by (intro conjI)
qed

section \<open>Further facts\<close>

lemma find_replace_first_same:
  "find (\<lambda>x. f x = i) xs \<noteq> None \<Longrightarrow> f y = i
     \<Longrightarrow> find (\<lambda>x. f x = i) (replace_first (\<lambda>x. f x = i) y xs) = Some y"
  by (induction xs) auto

lemma find_delete_first_gone:
  "distinct (map f xs) \<Longrightarrow> find (\<lambda>x. f x = i) (delete_first (\<lambda>x. f x = i) xs) = None"
proof -
  assume "distinct (map f xs)"
  then have "\<forall>x\<in>set (delete_first (\<lambda>x. f x = i) xs). f x \<noteq> i"
    using delete_first_gone [of f xs _ i] by blast
  then show ?thesis by (simp add: find_None_ball)
qed

text \<open>
  The deleting cancel handler (\<^verbatim>\<open>DELETE /swaps/:swapId\<close>): an unknown identifier is
  \<open>SwapNotFound\<close>; a caller other than the requester is \<open>Forbidden\<close>; a request that is
  not pending is an \<open>InvalidTransition\<close>; otherwise the document is deleted, and no
  document with its identifier is stored afterwards.
\<close>

theorem delete_swap_contract:
  "(SwapRequest_findById s i = None \<longrightarrow> delete_swap s u i = (Inl SwapNotFound, s))
   \<and> (SwapRequest_findById s i = Some w \<longrightarrow>
        delete_swap s u i =
          (if requester_id w \<noteq> u then (Inl Forbidden, s)
           else if status w \<noteq> Pending then (Inl InvalidTransition, s)
           else (Inr (), s\<lparr>SwapRequest := delete_first (\<lambda>x. sw_id x = i) (SwapRequest s)\<rparr>)))
   \<and> (wf_db s \<and> SwapRequest_findById s i = Some w \<and> requester_id w = u \<and> status w = Pending
        \<longrightarrow> SwapRequest_findById (snd (delete_swap s u i)) i = None)"
proof (intro conjI impI)
  assume "SwapRequest_findById s i = None"
  then show "delete_swap s u i = (Inl SwapNotFound, s)" by (simp add: delete_swap_def)
next
  assume "SwapRequest_findById s i = Some w"
  then show "delete_swap s u i =
          (if requester_id w \<noteq> u then (Inl Forbidden, s)
           else if status w \<noteq> Pending then (Inl InvalidTransition, s)
           else (Inr (), s\<lparr>SwapRequest := delete_first (\<lambda>x. sw_id x = i) (SwapRequest s)\<rparr>))"
    by (simp add: delete_swap_def SwapRequest_findByIdAndDelete_def)
next
  assume a: "wf_db s \<and> SwapRequest_findById s i = Some w \<and> requester_id w = u
    \<and> status w = Pending"
  then have "distinct (map sw_id (SwapRequest s))" by (simp add: wf_db_def)
  from find_delete_first_gone [OF this, of i] a
  show "SwapRequest_findById (snd (delete_swap s u i)) i = None"
    by (simp add: delete_swap_def SwapRequest_findByIdAndDelete_def SwapRequest_findById_def)
qed

theorem delete_swap_contract_witness:
  "delete_swap db_pending 1 99 = (Inl SwapNotFound, db_pending)
   \<and> SwapRequest_findById db_pending 30 = Some request_ab
   \<and> delete_swap db_pending 2 30 = (Inl Forbidden, db_pending)
   \<and> SwapRequest_findById db_accepted 30 = Some (request_ab\<lparr>status := Accepted\<rparr>)
   \<and> delete_swap db_accepted 1 30 = (Inl InvalidTransition, db_accepted)
   \<and> wf_db db_pending
   \<and> delete_swap db_pending 1 30 = (Inr (), db0\<lparr>next_id := 31\<rparr>)
   \<and> SwapRequest_findById (snd (delete_swap db_pending 1 30)) 30 = None"
proof -
  let ?w = "request_ab\<lparr>status := Accepted\<rparr>"
  have n: "SwapRequest_findById db_pending 99 = None"
    and f1: "SwapRequest_findById db_pending 30 = Some request_ab"
    and f2: "SwapRequest_findById db_accepted 30 = Some ?w"
    and w: "wf_db db_pending"
    and q: "requester_id request_ab = 1" "status request_ab = Pending"
    by (simp_all add: example_defs store_defs wf_db_def)
  from delete_swap_contract [where s = db_pending and i = 99 and u = 1] n
  have 1: "delete_swap db_pending 1 99 = (Inl SwapNotFound, db_pending)" by blast
  from delete_swap_contract [where s = db_pending and i = 30 and u = 2 and w = request_ab] f1
  have 2: "delete_swap db_pending 2 30 = (Inl Forbidden, db_pending)"
    by (simp add: example_defs)
  from delete_swap_contract [where s = db_accepted and i = 30 and u = 1 and w = ?w] f2
  have 3: "delete_swap db_accepted 1 30 = (Inl InvalidTransition, db_accepted)"
    by (simp add: example_defs)
  from delete_swap_contract [where s = db_pending and i = 30 and u = 1 and w = request_ab] f1
  have 4: "delete_swap db_pending 1 30 = (Inr (), db0\<lparr>next_id := 31\<rparr>)"
    by (simp add: example_defs)
  from delete_swap_contract [where s = db_pending and i = 30 and u = 1 and w = request_ab] f1 w q
  have 5: "SwapRequest_findById (snd (delete_swap db_pending 1 30)) 30 = None" by blast
  from 1 f1 2 f2 3 w 4 5 show ?thesis by (intro conjI)
qed

text \<open>
  Banning (\<^verbatim>\<open>PUT /admin/users/:userId/ban\<close>): the call is refused with
  \<open>SelfBanForbidden\<close> when the path parameter is the very string the token carries. For
  any other well-formed identifier the target must exist, and its flag is then set as
  requested; this includes the admin's own identifier spelled in another letter case.
  A creation call towards a banned recipient fails with \<open>RecipientBanned\<close>.
\<close>

theorem ban_user_contract:
  "(t = toString u \<longrightarrow> ban_user s u t b = (Inl SelfBanForbidden, s))
   \<and> (t \<noteq> toString u \<and> isMongoId t \<and> User_findById s (ObjectId t) = None \<longrightarrow>
        ban_user s u t b = (Inl UserNotFound, s))
   \<and> (t \<noteq> toString u \<and> isMongoId t \<and> User_findById s (ObjectId t) = Some x \<longrightarrow>
        ban_user s u t b =
          (Inr (), s\<lparr>User := replace_first (\<lambda>y. u_id y = ObjectId t) (x\<lparr>is_banned := b\<rparr>)
                               (User s)\<rparr>)
      \<and> User_findById (snd (ban_user s u t b)) (ObjectId t) = Some (x\<lparr>is_banned := b\<rparr>)
      \<and> (b \<and> toString r \<noteq> t \<longrightarrow>
           create_swap (snd (ban_user s u t b)) r t a c m
             = (Inl RecipientBanned, snd (ban_user s u t b))))"
proof (intro conjI impI)
  assume "t = toString u"
  then show "ban_user s u t b = (Inl SelfBanForbidden, s)" by (simp add: ban_user_def)
next
  assume "t \<noteq> toString u \<and> isMongoId t \<and> User_findById s (ObjectId t) = None"
  then show "ban_user s u t b = (Inl UserNotFound, s)" by (simp add: ban_user_def)
next
  assume a: "t \<noteq> toString u \<and> isMongoId t \<and> User_findById s (ObjectId t) = Some x"
  then show 1: "ban_user s u t b =
          (Inr (), s\<lparr>User := replace_first (\<lambda>y. u_id y = ObjectId t) (x\<lparr>is_banned := b\<rparr>)
                               (User s)\<rparr>)"
    by (simp add: ban_user_def)
  from a have "u_id x = ObjectId t" "find (\<lambda>y. u_id y = ObjectId t) (User s) \<noteq> None"
    by (auto simp: User_findById_def dest: find_by_id_key)
  with 1 show 2: "User_findById (snd (ban_user s u t b)) (ObjectId t) = Some (x\<lparr>is_banned := b\<rparr>)"
    by (simp add: User_findById_def find_replace_first_same)
  assume "b \<and> toString r \<noteq> t"
  with 2 a show "create_swap (snd (ban_user s u t b)) r t a c m
             = (Inl RecipientBanned, snd (ban_user s u t b))"
    by (simp add: create_swap_def)
qed

theorem ban_user_contract_witness:
  "ban_user db0 9 (toString 9) True = (Inl SelfBanForbidden, db0)
   \<and> isMongoId (toString 8) \<and> User_findById db0 (ObjectId (toString 8)) = None
   \<and> ban_user db0 9 (toString 8) True = (Inl UserNotFound, db0)
   \<and> isMongoId (toString 2) \<and> User_findById db0 (ObjectId (toString 2)) = Some bob
   \<and> ban_user db0 9 (toString 2) True
       = (Inr (), db0\<lparr>User := [alice, bob\<lparr>is_banned := True\<rparr>, carol]\<rparr>)
   \<and> create_swap (snd (ban_user db0 9 (toString 2) True)) 1 (toString 2) 11 12 None
       = (Inl RecipientBanned, snd (ban_user db0 9 (toString 2) True))
   \<and> isMongoId erin_upper \<and> erin_upper \<noteq> toString 10
   \<and> User_findById db_erin (ObjectId erin_upper) = Some erin
   \<and> ban_user db_erin 10 erin_upper True
       = (Inr (), db_erin\<lparr>User := [erin\<lparr>is_banned := True\<rparr>]\<rparr>)"
proof -
  note t = ban_user_contract
  have i: "isMongoId (toString 8)" "ObjectId (toString 8) = 8" "toString 8 \<noteq> toString 9"
    "toString 2 \<noteq> toString 9" "erin_upper \<noteq> toString 10"
    by code_simp+
  note k = id_text_facts i
  have n: "User_findById db0 (ObjectId (toString 8)) = None"
    and f: "User_findById db0 (ObjectId (toString 2)) = Some bob"
    and e: "User_findById db_erin (ObjectId erin_upper) = Some erin"
    by (simp_all add: example_defs store_defs k)
  from t [where t = "toString 9" and u = 9 and s = db0 and b = True]
  have 1: "ban_user db0 9 (toString 9) True = (Inl SelfBanForbidden, db0)"
    by blast
  from t [where t = "toString 8" and u = 9 and s = db0 and b = True] n k
  have 2: "ban_user db0 9 (toString 8) True = (Inl UserNotFound, db0)"
    by blast
  from t [where t = "toString 2" and u = 9 and s = db0 and b = True and x = bob] f k
  have "ban_user db0 9 (toString 2) True
       = (Inr (), db0\<lparr>User := replace_first (\<lambda>y. u_id y = ObjectId (toString 2))
            (bob\<lparr>is_banned := True\<rparr>) (User db0)\<rparr>)"
    by blast
  then have 3: "ban_user db0 9 (toString 2) True
       = (Inr (), db0\<lparr>User := [alice, bob\<lparr>is_banned := True\<rparr>, carol]\<rparr>)"
    by (simp add: example_defs k)
  have "True \<and> toString 1 \<noteq> toString 2" using k by simp
  with t [where t = "toString 2" and u = 9 and s = db0 and b = True and x = bob and r = 1
      and a = 11 and c = 12 and m = None] f k
  have 4: "create_swap (snd (ban_user db0 9 (toString 2) True)) 1 (toString 2) 11 12 None
       = (Inl RecipientBanned, snd (ban_user db0 9 (toString 2) True))"
    by blast
  from t [where t = erin_upper and u = 10 and s = db_erin and b = True and x = erin] e k
  have "ban_user db_erin 10 erin_upper True
       = (Inr (), db_erin\<lparr>User := replace_first (\<lambda>y. u_id y = ObjectId erin_upper)
            (erin\<lparr>is_banned := True\<rparr>) (User db_erin)\<rparr>)"
    by blast
  then have 5: "ban_user db_erin 10 erin_upper True
       = (Inr (), db_erin\<lparr>User := [erin\<lparr>is_banned := True\<rparr>]\<rparr>)"
    by (simp add: example_defs k)
  have m: "isMongoId (toString 8)" "isMongoId (toString 2)" "isMongoId erin_upper"
    "erin_upper \<noteq> toString 10"
    using k by simp_all
  from 1 m(1) n 2 m(2) f 3 4 m(3,4) e 5 show ?thesis by (intro conjI)
qed


end
